theory Spec2Isabelle
  imports Main
begin

section \<open>The mailbox door sensor: one boot cycle of main.ino\<close>

text \<open>
  The sketch \<^verbatim>\<open>src/main/main.ino\<close> runs once per wake-up: \<^verbatim>\<open>setup()\<close> samples the reed
  switch, compares the sample with the value kept in RTC memory, talks to WiFi and MQTT
  where the door is open, and ends in \<^verbatim>\<open>esp_deep_sleep_start()\<close>, which does not return.
  The embedding passes the machine state explicitly and takes everything the board and the
  network decide from an environment record.

  Conventions of the model:
  \<^item> \<^verbatim>\<open>long\<close> and \<^verbatim>\<open>int\<close> variables are \<open>int\<close>; \<^verbatim>\<open>millis()\<close> is a \<open>nat\<close>. No counter of the
    sketch gets near 32 bits inside one cycle, and the retained counters grow by one per
    boot, so no wrap-around is written out.
  \<^item> the clock advances in \<^verbatim>\<open>delay(n)\<close> only; every other statement takes no time.
  \<^item> \<^verbatim>\<open>digitalRead\<close>, \<^verbatim>\<open>WiFi.status()\<close> and \<^verbatim>\<open>client.connect()\<close> each consume the next
    answer of the environment, counted per call.
  \<^item> \<^verbatim>\<open>Serial\<close> output, \<^verbatim>\<open>pinMode\<close> and the pull-up settings, \<^verbatim>\<open>client.setServer\<close>,
    \<^verbatim>\<open>client.loop()\<close> and the counters \<^verbatim>\<open>count\<close> and \<^verbatim>\<open>n\<close> that only pace the serial
    output have no effect on the state below and are left out.
  \<^item> \<^verbatim>\<open>client.publish\<close> is recorded as an event of the trace whether or not the client is
    connected; its result is discarded by every call of the sketch.
  \<^item> wake sources are configured afresh in every cycle: a wake-up from deep sleep restarts
    the program with none enabled.
\<close>

subsection \<open>Constants of the sketch\<close>

definition MAX_OPENDOOR_TIME :: int where
  "MAX_OPENDOOR_TIME = 30000"

definition MAX_STUCK_BOOT_COUNT :: int where
  "MAX_STUCK_BOOT_COUNT = 5"

definition TIMER_SLEEP_MICROSECS :: nat where
  "TIMER_SLEEP_MICROSECS = 10 * 1000000"

definition message_door_open :: string where
  "message_door_open = ''Your Mailbox Has Been Opened''"

definition message_door_closed :: string where
  "message_door_closed = ''Mailbox Closed''"

definition message_door_stuck :: string where
  "message_door_stuck = ''Your Mailbox Was Not Shut Correctly!''"

definition LOW :: int where
  "LOW = 0"

definition HIGH :: int where
  "HIGH = 1"

definition GPIO_DOOR_CLOSED_STATE :: int where
  "GPIO_DOOR_CLOSED_STATE = LOW"

definition GPIO_DOOR_OPEN_STATE :: int where
  "GPIO_DOOR_OPEN_STATE = HIGH"

text \<open>
  \<^verbatim>\<open>wifi_info.h\<close> is not part of the sources; the two values of it that steer the control
  flow are parameters.
\<close>

record config =
  wifi_timeout :: nat
  mqtt_max_retries :: int

subsection \<open>Environment, state and observable events\<close>

record env =
  pin_level :: "nat \<Rightarrow> bool"
    \<comment> \<open>the level of the reed switch pin at the i-th \<^verbatim>\<open>digitalRead\<close> of the cycle\<close>
  wifi_up :: "nat \<Rightarrow> bool"
    \<comment> \<open>whether the i-th \<^verbatim>\<open>WiFi.status()\<close> of the cycle is \<^verbatim>\<open>WL_CONNECTED\<close>\<close>
  broker_accepts :: "nat \<Rightarrow> bool"
    \<comment> \<open>whether the i-th \<^verbatim>\<open>client.connect()\<close> of the cycle succeeds\<close>
  wifi_restart_drops_client :: bool
    \<comment> \<open>whether \<^verbatim>\<open>WiFi.disconnect()\<close> makes \<^verbatim>\<open>client.connected()\<close> false\<close>

datatype wake_source = TimerAlarm nat | EdgeTrigger int

datatype event =
    WiFi_disconnect
  | WiFi_begin
  | Client_connect bool
  | Client_disconnect
  | Publish string string
  | Store_last_doorState int
  | Deep_sleep_start

text \<open>The four \<^verbatim>\<open>RTC_DATA_ATTR\<close> variables, which survive deep sleep.\<close>

record rtc =
  rtc_bootCount :: int
  rtc_stuckbootCount :: int
  rtc_last_doorState :: int
  rtc_time_awake_millis :: int

definition rtc_cold :: rtc where
  "rtc_cold = \<lparr>rtc_bootCount = 0, rtc_stuckbootCount = 0, rtc_last_doorState = - 99,
     rtc_time_awake_millis = 0\<rparr>"

record mstate =
  bootCount :: int
  stuckbootCount :: int
  last_doorState :: int
  time_awake_millis :: int
  currentMillis :: nat
  doorState :: int
  start_time :: nat
  total_time_awake :: "nat \<times> nat \<times> nat"
  clock :: nat
  pin_reads :: nat
  wifi_polls :: nat
  connect_calls :: nat
  client_connected :: bool
  wake_sources :: "wake_source list"
  trace :: "event list"

text \<open>
  A wake-up from deep sleep restarts the program: the RTC variables keep their values,
  every other global has its initialiser, no wake source is configured and the MQTT
  client is not connected.
\<close>

definition wake_up :: "rtc \<Rightarrow> mstate" where
  "wake_up r = \<lparr>bootCount = rtc_bootCount r, stuckbootCount = rtc_stuckbootCount r,
     last_doorState = rtc_last_doorState r, time_awake_millis = rtc_time_awake_millis r,
     currentMillis = 0, doorState = LOW, start_time = 0, total_time_awake = (0, 0, 0),
     clock = 0, pin_reads = 0, wifi_polls = 0, connect_calls = 0,
     client_connected = False, wake_sources = [], trace = []\<rparr>"

definition retained :: "mstate \<Rightarrow> rtc" where
  "retained s = \<lparr>rtc_bootCount = bootCount s, rtc_stuckbootCount = stuckbootCount s,
     rtc_last_doorState = last_doorState s, rtc_time_awake_millis = time_awake_millis s\<rparr>"

text \<open>
  A function of the sketch either returns to its caller or has put the board to sleep;
  in the second case nothing after the call runs.
\<close>

datatype outcome = Suspended mstate | Resumes mstate

definition and_then :: "outcome \<Rightarrow> (mstate \<Rightarrow> outcome) \<Rightarrow> outcome" where
  "and_then r f = (case r of Suspended s \<Rightarrow> Suspended s | Resumes s \<Rightarrow> f s)"

definition final_state :: "outcome \<Rightarrow> mstate" where
  "final_state r = (case r of Suspended s \<Rightarrow> s | Resumes s \<Rightarrow> s)"

definition is_suspended :: "outcome \<Rightarrow> bool" where
  "is_suspended r = (case r of Suspended s \<Rightarrow> True | Resumes s \<Rightarrow> False)"

subsection \<open>Platform calls\<close>

definition millis :: "mstate \<Rightarrow> nat" where
  "millis s = clock s"

definition delay :: "nat \<Rightarrow> mstate \<Rightarrow> mstate" where
  "delay n s = s\<lparr>clock := clock s + n\<rparr>"

text \<open>The value \<^verbatim>\<open>digitalRead(doorSensorPIN)\<close> returns at the i-th read of the cycle.\<close>

definition level :: "env \<Rightarrow> nat \<Rightarrow> int" where
  "level e i = (if pin_level e i then HIGH else LOW)"

definition digitalRead :: "env \<Rightarrow> mstate \<Rightarrow> int \<times> mstate" where
  "digitalRead e s = (level e (pin_reads s), s\<lparr>pin_reads := pin_reads s + 1\<rparr>)"

definition publish :: "string \<Rightarrow> string \<Rightarrow> mstate \<Rightarrow> mstate" where
  "publish topic payload s = s\<lparr>trace := trace s @ [Publish topic payload]\<rparr>"

definition esp_sleep_enable_timer_wakeup :: "nat \<Rightarrow> mstate \<Rightarrow> mstate" where
  "esp_sleep_enable_timer_wakeup us s = s\<lparr>wake_sources := wake_sources s @ [TimerAlarm us]\<rparr>"

definition esp_sleep_enable_ext0_wakeup :: "int \<Rightarrow> mstate \<Rightarrow> mstate" where
  "esp_sleep_enable_ext0_wakeup lvl s =
     s\<lparr>wake_sources := wake_sources s @ [EdgeTrigger lvl]\<rparr>"

definition esp_deep_sleep_start :: "mstate \<Rightarrow> outcome" where
  "esp_deep_sleep_start s = Suspended (s\<lparr>trace := trace s @ [Deep_sleep_start]\<rparr>)"

text \<open>\<^verbatim>\<open>String(doorState)\<close>: the decimal text of an integer.\<close>

fun decimal :: "nat \<Rightarrow> string" where
  "decimal n =
     (if n < 10 then [''0123456789'' ! n]
      else decimal (n div 10) @ [''0123456789'' ! (n mod 10)])"

declare decimal.simps [simp del]

definition String_of :: "int \<Rightarrow> string" where
  "String_of i = (if i < 0 then CHR ''-'' # decimal (nat (- i)) else decimal (nat i))"

subsection \<open>esp32_sleep\<close>

definition esp32_sleep :: "env \<Rightarrow> mstate \<Rightarrow> outcome" where
  "esp32_sleep e s =
     (let s1 = s\<lparr>time_awake_millis :=
                   time_awake_millis s + (int (millis s) - int (currentMillis s))\<rparr>;
          (v, s2) = digitalRead e s1;
          s3 = s2\<lparr>last_doorState := v, trace := trace s2 @ [Store_last_doorState v]\<rparr>
      in esp_deep_sleep_start s3)"

subsection \<open>setup_wifi\<close>

text \<open>
  The body of \<^verbatim>\<open>while (WiFi.status() != WL_CONNECTED)\<close>. On the timeout the sketch calls
  \<^verbatim>\<open>esp32_sleep()\<close>, which does not come back, so the loop ends there.
\<close>

function wifi_wait :: "config \<Rightarrow> env \<Rightarrow> mstate \<Rightarrow> outcome" where
  "wifi_wait c e s =
     (if wifi_up e (wifi_polls s) then Resumes (s\<lparr>wifi_polls := wifi_polls s + 1\<rparr>)
      else
        (let s1 = delay 25 (s\<lparr>wifi_polls := wifi_polls s + 1\<rparr>) in
         if int (millis s1) - int (start_time s1) > int (wifi_timeout c)
         then esp32_sleep e s1
         else wifi_wait c e s1))"
  by pat_completeness auto
termination
  by (relation "measure (\<lambda>(c, e, s). nat (int (wifi_timeout c) + 25 + int (start_time s) - int (clock s)))")
     (auto simp: delay_def millis_def)

declare wifi_wait.simps [simp del]

definition setup_wifi :: "config \<Rightarrow> env \<Rightarrow> mstate \<Rightarrow> outcome" where
  "setup_wifi c e s =
     (let s1 = s\<lparr>start_time := millis s\<rparr>;
          s2 = s1\<lparr>client_connected := client_connected s1 \<and> \<not> wifi_restart_drops_client e,
                  trace := trace s1 @ [WiFi_disconnect]\<rparr>;
          s3 = s2\<lparr>trace := trace s2 @ [WiFi_begin]\<rparr>
      in wifi_wait c e s3)"

subsection \<open>reconnect and connect_WIFI_MQTT\<close>

text \<open>
  The loop of \<^verbatim>\<open>reconnect()\<close> over a link that stays up once the broker has accepted it:
  \<^verbatim>\<open>client.connected()\<close> is the flag \<open>client_connected\<close>, which a successful
  \<^verbatim>\<open>client.connect()\<close> sets and \<^verbatim>\<open>client.disconnect()\<close> clears. This is the loop that
  \<open>setup_main\<close> runs. The loop over a link that may drop right after the broker has
  accepted it is \<open>reconnect_fuel\<close> below.
\<close>

function reconnect_loop :: "config \<Rightarrow> env \<Rightarrow> int \<Rightarrow> mstate \<Rightarrow> mstate" where
  "reconnect_loop c e retry s =
     (if client_connected s then s
      else
        (let ok = broker_accepts e (connect_calls s);
             s1 = s\<lparr>connect_calls := connect_calls s + 1, client_connected := ok,
                    trace := trace s @ [Client_connect ok]\<rparr>
         in if ok then reconnect_loop c e retry s1
            else
              (let retry1 = retry + 1; s2 = delay 3000 s1 in
               if retry1 > mqtt_max_retries c then s2
               else reconnect_loop c e retry1 s2)))"
  by pat_completeness auto
termination
  by (relation "measure (\<lambda>(c, e, retry, s).
        (if client_connected s then 0 else 1) + 2 * nat (mqtt_max_retries c + 1 - retry))")
     (auto simp: delay_def)

declare reconnect_loop.simps [simp del]

definition reconnect :: "config \<Rightarrow> env \<Rightarrow> mstate \<Rightarrow> mstate" where
  "reconnect c e s = reconnect_loop c e 0 s"

text \<open>
  The same loop, lines 163 to 184, with the answer of \<^verbatim>\<open>client.connected()\<close> left to the
  network: \<open>connected_after i\<close> is what \<^verbatim>\<open>client.connected()\<close> returns at the loop test that
  follows call \<open>i\<close> of \<^verbatim>\<open>client.connect()\<close>, whatever that call returned. The counter
  \<^verbatim>\<open>retry\<close> moves only when \<^verbatim>\<open>client.connect()\<close> fails, so this loop need not end. The first
  argument bounds the number of iterations; the result is \<open>None\<close> when they are used up
  before the loop is left.
\<close>

fun reconnect_fuel ::
  "nat \<Rightarrow> (nat \<Rightarrow> bool) \<Rightarrow> config \<Rightarrow> env \<Rightarrow> int \<Rightarrow> mstate \<Rightarrow> mstate option" where
  "reconnect_fuel 0 connected_after c e retry s = (if client_connected s then Some s else None)"
| "reconnect_fuel (Suc n) connected_after c e retry s =
     (if client_connected s then Some s
      else
        (let ok = broker_accepts e (connect_calls s);
             s1 = s\<lparr>connect_calls := connect_calls s + 1,
                    client_connected := connected_after (connect_calls s),
                    trace := trace s @ [Client_connect ok]\<rparr>
         in if ok then reconnect_fuel n connected_after c e retry s1
            else
              (let retry1 = retry + 1; s2 = delay 3000 s1 in
               if retry1 > mqtt_max_retries c then Some s2
               else reconnect_fuel n connected_after c e retry1 s2)))"

text \<open>\<^verbatim>\<open>connect_WIFI_MQTT\<close> returns \<^verbatim>\<open>true\<close> whenever it returns.\<close>

definition connect_WIFI_MQTT :: "config \<Rightarrow> env \<Rightarrow> mstate \<Rightarrow> outcome" where
  "connect_WIFI_MQTT c e s =
     and_then (setup_wifi c e s)
       (\<lambda>s1. Resumes (if \<not> client_connected s1 then reconnect c e s1 else s1))"

subsection \<open>runtime\<close>

definition runtime :: "nat \<Rightarrow> mstate \<Rightarrow> mstate" where
  "runtime ms s =
     (let allSeconds = ms div 1000;
          runHours = allSeconds div 3600;
          secsRemaining = allSeconds mod 3600;
          runMinutes = secsRemaining div 60;
          runSeconds = secsRemaining mod 60
      in s\<lparr>total_time_awake := (runHours, runMinutes, runSeconds)\<rparr>)"

subsection \<open>The open-door loop\<close>

function open_loop :: "env \<Rightarrow> mstate \<Rightarrow> mstate" where
  "open_loop e s =
     (if doorState s = GPIO_DOOR_OPEN_STATE then
        (let (v, s1) = digitalRead e s;
             s2 = s1\<lparr>doorState := v\<rparr>;
             elapsed_time = int (millis s2) - int (start_time s2);
             s3 = delay 50 s2
         in if elapsed_time > MAX_OPENDOOR_TIME
            then publish ''/sensor/door_status'' message_door_stuck s3
            else open_loop e s3)
      else s)"
  by pat_completeness auto
termination
  by (relation "measure (\<lambda>(e, s). nat (MAX_OPENDOOR_TIME + 50 + int (start_time s) - int (clock s)))")
     (auto simp: delay_def millis_def digitalRead_def level_def MAX_OPENDOOR_TIME_def)

declare open_loop.simps [simp del]

subsection \<open>setup\<close>

text \<open>Lines 280 to 301: the sample equals the retained value.\<close>

definition unchanged_branch :: "env \<Rightarrow> mstate \<Rightarrow> outcome" where
  "unchanged_branch e s =
     (let s1 = s\<lparr>stuckbootCount := stuckbootCount s + 1\<rparr> in
      if stuckbootCount s1 > MAX_STUCK_BOOT_COUNT then
        esp32_sleep e
          (esp_sleep_enable_timer_wakeup TIMER_SLEEP_MICROSECS
            (publish ''/sensor/door_status'' message_door_stuck s1))
      else
        esp32_sleep e (esp_sleep_enable_ext0_wakeup GPIO_DOOR_OPEN_STATE (delay 5000 s1)))"

text \<open>Lines 304 to 314: the door left a stuck episode.\<close>

definition recover_branch :: "config \<Rightarrow> env \<Rightarrow> mstate \<Rightarrow> outcome" where
  "recover_branch c e s =
     (if stuckbootCount s > MAX_STUCK_BOOT_COUNT then
        and_then (connect_WIFI_MQTT c e s)
          (\<lambda>s1. Resumes
             ((publish ''/sensor/door_status'' message_door_closed
                (publish ''/sensor/door'' (String_of (doorState s1)) s1))
              \<lparr>stuckbootCount := 0\<rparr>))
      else Resumes s)"

text \<open>Lines 324 to 391: the door is not closed.\<close>

definition open_branch :: "config \<Rightarrow> env \<Rightarrow> mstate \<Rightarrow> outcome" where
  "open_branch c e s =
     (if doorState s \<noteq> GPIO_DOOR_CLOSED_STATE then
        and_then (connect_WIFI_MQTT c e s)
          (\<lambda>s1.
             (let s2 = publish ''/sensor/door'' (String_of (doorState s1)) s1;
                  s3 = publish ''/sensor/door_status'' message_door_open s2;
                  s4 = open_loop e s3;
                  s5 = runtime (nat (int (millis s4) - int (currentMillis s4)
                                     + time_awake_millis s4)) s4;
                  s6 = delay 250 s5;
                  s7 = s6\<lparr>client_connected := False,
                          trace := trace s6 @ [Client_disconnect]\<rparr>;
                  s8 = s7\<lparr>trace := trace s7 @ [WiFi_disconnect]\<rparr>
              in Resumes s8))
      else Resumes s)"

text \<open>Lines 316 to 395: everything after the first \<^verbatim>\<open>if\<close> of \<^verbatim>\<open>setup()\<close>.\<close>

definition changed_branch :: "config \<Rightarrow> env \<Rightarrow> mstate \<Rightarrow> outcome" where
  "changed_branch c e s =
     and_then (recover_branch c e s)
       (\<lambda>s1. and_then (open_branch c e (esp_sleep_enable_ext0_wakeup GPIO_DOOR_OPEN_STATE s1))
          (\<lambda>s2. esp32_sleep e (publish ''/sensor/door_status'' message_door_closed s2)))"

text \<open>Lines 253 to 268: start the awake timer, sample the door, count the boot.\<close>

definition boot_prologue :: "env \<Rightarrow> rtc \<Rightarrow> mstate" where
  "boot_prologue e r =
     (let s0 = delay 50 (wake_up r);
          s1 = s0\<lparr>currentMillis := millis s0\<rparr>;
          (v, s2) = digitalRead e s1;
          s3 = s2\<lparr>doorState := v\<rparr>
      in s3\<lparr>bootCount := bootCount s3 + 1\<rparr>)"

definition setup_main :: "config \<Rightarrow> env \<Rightarrow> rtc \<Rightarrow> outcome" where
  "setup_main c e r =
     (let s = boot_prologue e r in
      and_then
        (if last_doorState s = doorState s then unchanged_branch e s else Resumes s)
        (changed_branch c e))"

text \<open>
  The state in which the call of \<^verbatim>\<open>connect_WIFI_MQTT()\<close> at line 328 reaches
  \<^verbatim>\<open>reconnect()\<close>, in a boot that finds the door open and the WiFi network up.
\<close>

definition at_reconnect :: "config \<Rightarrow> env \<Rightarrow> rtc \<Rightarrow> mstate" where
  "at_reconnect c e r =
     final_state (setup_wifi c e
       (esp_sleep_enable_ext0_wakeup GPIO_DOOR_OPEN_STATE (boot_prologue e r)))"

subsection \<open>Successive boots\<close>

text \<open>
  Each boot starts from the RTC variables the previous one left behind; the environment
  of every boot is its own.
\<close>

fun boots :: "config \<Rightarrow> env list \<Rightarrow> rtc \<Rightarrow> outcome list" where
  "boots c [] r = []"
| "boots c (e # es) r =
     setup_main c e r # boots c es (retained (final_state (setup_main c e r)))"

text \<open>Every boot of the run samples the value the previous suspend stored.\<close>

fun all_unchanged :: "config \<Rightarrow> env list \<Rightarrow> rtc \<Rightarrow> bool" where
  "all_unchanged c [] r = True"
| "all_unchanged c (e # es) r =
     (rtc_last_doorState r = doorState (boot_prologue e r) \<and>
      all_unchanged c es (retained (final_state (setup_main c e r))))"

subsection \<open>Predicates on traces and states used in the proofs\<close>

text \<open>The two events of \<^verbatim>\<open>esp32_sleep\<close>: the store to RTC memory and the suspend.\<close>

fun is_commit :: "event \<Rightarrow> bool" where
  "is_commit (Store_last_doorState v) = True"
| "is_commit Deep_sleep_start = True"
| "is_commit ev = False"

text \<open>
  What the network code and the open-door loop leave alone: the retained variables, the
  awake timer and the wake sources. They only let time pass, read the pin and append
  events other than the two of \<^verbatim>\<open>esp32_sleep\<close>.
\<close>

definition network_only :: "mstate \<Rightarrow> mstate \<Rightarrow> bool" where
  "network_only s s' \<longleftrightarrow>
     bootCount s' = bootCount s \<and> stuckbootCount s' = stuckbootCount s \<and>
     last_doorState s' = last_doorState s \<and> time_awake_millis s' = time_awake_millis s \<and>
     currentMillis s' = currentMillis s \<and> wake_sources s' = wake_sources s \<and>
     clock s \<le> clock s' \<and> pin_reads s \<le> pin_reads s' \<and>
     (\<exists>ext. trace s' = trace s @ ext \<and> filter is_commit ext = [])"

text \<open>
  The variable \<^verbatim>\<open>doorState\<close> holds what the latest \<^verbatim>\<open>digitalRead\<close> returned; after
  \<^verbatim>\<open>esp32_sleep\<close>, which reads the pin once more without assigning \<^verbatim>\<open>doorState\<close>, it
  holds the read before the last.
\<close>

definition door_fresh :: "env \<Rightarrow> mstate \<Rightarrow> bool" where
  "door_fresh e s \<longleftrightarrow> 1 \<le> pin_reads s \<and> doorState s = level e (pin_reads s - 1)"

definition door_fresh_out :: "env \<Rightarrow> outcome \<Rightarrow> bool" where
  "door_fresh_out e r =
     (case r of
        Resumes s \<Rightarrow> door_fresh e s
      | Suspended s \<Rightarrow> 2 \<le> pin_reads s \<and> doorState s = level e (pin_reads s - 2))"

subsection \<open>Concrete environments and configurations\<close>

text \<open>
  Inputs on which the theorems below are run: a network that always gives the same
  answers, with a pin that either stays at one level or follows a list of readings and
  reads low after the list.
\<close>

definition steady :: "bool \<Rightarrow> bool \<Rightarrow> bool \<Rightarrow> env" where
  "steady door wifi broker =
     \<lparr>pin_level = (\<lambda>i. door), wifi_up = (\<lambda>i. wifi), broker_accepts = (\<lambda>i. broker),
      wifi_restart_drops_client = True\<rparr>"

definition scripted :: "bool list \<Rightarrow> bool \<Rightarrow> bool \<Rightarrow> env" where
  "scripted pins wifi broker =
     \<lparr>pin_level = (\<lambda>i. i < length pins \<and> pins ! i), wifi_up = (\<lambda>i. wifi),
      broker_accepts = (\<lambda>i. broker), wifi_restart_drops_client = True\<rparr>"

definition short_config :: config where
  "short_config = \<lparr>wifi_timeout = 100, mqtt_max_retries = 2\<rparr>"

definition patient_config :: config where
  "patient_config = \<lparr>wifi_timeout = 10000, mqtt_max_retries = 10\<rparr>"

definition rtc_of :: "int \<Rightarrow> int \<Rightarrow> rtc" where
  "rtc_of stuck door = \<lparr>rtc_bootCount = 7, rtc_stuckbootCount = stuck,
     rtc_last_doorState = door, rtc_time_awake_millis = 0\<rparr>"

section \<open>Basic facts about the model\<close>

lemmas sketch_consts = LOW_def HIGH_def GPIO_DOOR_CLOSED_STATE_def GPIO_DOOR_OPEN_STATE_def
  MAX_STUCK_BOOT_COUNT_def MAX_OPENDOOR_TIME_def

lemmas prims = millis_def delay_def digitalRead_def publish_def
  esp_sleep_enable_timer_wakeup_def esp_sleep_enable_ext0_wakeup_def esp_deep_sleep_start_def

lemma level_cases: "level e i = LOW \<or> level e i = HIGH"
  by (simp add: level_def)

lemma level_open_iff: "level e i = GPIO_DOOR_OPEN_STATE \<longleftrightarrow> pin_level e i"
  by (simp add: level_def sketch_consts)

lemma level_closed_iff: "level e i = GPIO_DOOR_CLOSED_STATE \<longleftrightarrow> \<not> pin_level e i"
  by (simp add: level_def sketch_consts)

text \<open>\<^verbatim>\<open>esp32_sleep\<close> in one step: account the awake time, store the pin, sleep.\<close>

lemma esp32_sleep_result:
  "esp32_sleep e s = Suspended
     (s\<lparr>time_awake_millis := time_awake_millis s + (int (clock s) - int (currentMillis s)),
        pin_reads := pin_reads s + 1,
        last_doorState := level e (pin_reads s),
        trace := trace s @ [Store_last_doorState (level e (pin_reads s)), Deep_sleep_start]\<rparr>)"
  by (simp add: esp32_sleep_def prims Let_def)

lemma open_loop_exit: "doorState s \<noteq> GPIO_DOOR_OPEN_STATE \<Longrightarrow> open_loop e s = s"
  by (subst open_loop.simps) simp

lemma open_loop_step:
  "doorState s = GPIO_DOOR_OPEN_STATE \<Longrightarrow>
   open_loop e s =
     (if int (clock s) - int (start_time s) > MAX_OPENDOOR_TIME
      then s\<lparr>pin_reads := pin_reads s + 1, doorState := level e (pin_reads s),
             clock := clock s + 50,
             trace := trace s @ [Publish ''/sensor/door_status'' message_door_stuck]\<rparr>
      else open_loop e
             (s\<lparr>pin_reads := pin_reads s + 1, doorState := level e (pin_reads s),
                clock := clock s + 50\<rparr>))"
  by (subst open_loop.simps) (simp add: prims Let_def)

lemma open_loop_result:
  "doorState s = GPIO_DOOR_OPEN_STATE \<Longrightarrow>
   \<exists>n. open_loop e s =
         s\<lparr>pin_reads := pin_reads s + n + 1,
           doorState := level e (pin_reads s + n),
           clock := clock s + 50 * (n + 1),
           trace := trace s @
             (if int (clock s) + 50 * int n - int (start_time s) > MAX_OPENDOOR_TIME
              then [Publish ''/sensor/door_status'' message_door_stuck] else [])\<rparr>
       \<and> (\<forall>j<n. pin_level e (pin_reads s + j) \<and>
                  int (clock s) + 50 * int j - int (start_time s) \<le> MAX_OPENDOOR_TIME)
       \<and> (int (clock s) + 50 * int n - int (start_time s) > MAX_OPENDOOR_TIME \<or>
          \<not> pin_level e (pin_reads s + n))"
proof (induction e s rule: open_loop.induct)
  case (1 e s)
  let ?s3 = "s\<lparr>pin_reads := pin_reads s + 1, doorState := level e (pin_reads s),
                clock := clock s + 50\<rparr>"
  note IH = "1.IH"[OF "1.prems" refl prod.collapse refl refl refl]
  show ?case
  proof (cases "int (clock s) - int (start_time s) > MAX_OPENDOOR_TIME")
    case True
    with "1.prems" show ?thesis
      by (intro exI[of _ 0]) (simp add: open_loop_step)
  next
    case False
    with "1.prems" have unfold: "open_loop e s = open_loop e ?s3"
      by (simp add: open_loop_step)
    show ?thesis
    proof (cases "pin_level e (pin_reads s)")
      case closed: False
      then have "open_loop e ?s3 = ?s3"
        by (simp add: open_loop_exit level_def sketch_consts)
      with unfold closed False show ?thesis by (intro exI[of _ 0]) simp
    next
      case opened: True
      have "\<exists>n. open_loop e ?s3 =
         ?s3\<lparr>pin_reads := pin_reads ?s3 + n + 1,
           doorState := level e (pin_reads ?s3 + n),
           clock := clock ?s3 + 50 * (n + 1),
           trace := trace ?s3 @
             (if int (clock ?s3) + 50 * int n - int (start_time ?s3) > MAX_OPENDOOR_TIME
              then [Publish ''/sensor/door_status'' message_door_stuck] else [])\<rparr>
       \<and> (\<forall>j<n. pin_level e (pin_reads ?s3 + j) \<and>
                  int (clock ?s3) + 50 * int j - int (start_time ?s3) \<le> MAX_OPENDOOR_TIME)
       \<and> (int (clock ?s3) + 50 * int n - int (start_time ?s3) > MAX_OPENDOOR_TIME \<or>
          \<not> pin_level e (pin_reads ?s3 + n))"
        using IH False opened by (simp add: prims level_def sketch_consts)
      then obtain n where n: "open_loop e ?s3 =
         ?s3\<lparr>pin_reads := pin_reads ?s3 + n + 1,
           doorState := level e (pin_reads ?s3 + n),
           clock := clock ?s3 + 50 * (n + 1),
           trace := trace ?s3 @
             (if int (clock ?s3) + 50 * int n - int (start_time ?s3) > MAX_OPENDOOR_TIME
              then [Publish ''/sensor/door_status'' message_door_stuck] else [])\<rparr>"
       and before: "\<forall>j<n. pin_level e (pin_reads ?s3 + j) \<and>
                  int (clock ?s3) + 50 * int j - int (start_time ?s3) \<le> MAX_OPENDOOR_TIME"
       and atn: "int (clock ?s3) + 50 * int n - int (start_time ?s3) > MAX_OPENDOOR_TIME \<or>
          \<not> pin_level e (pin_reads ?s3 + n)"
        by blast
      have "\<forall>j<Suc n. pin_level e (pin_reads s + j) \<and>
                  int (clock s) + 50 * int j - int (start_time s) \<le> MAX_OPENDOOR_TIME"
        using before opened False by (auto simp: less_Suc_eq_0_disj)
      with n atn unfold show ?thesis
        by (intro exI[of _ "Suc n"]) (simp add: add.assoc)
    qed
  qed
qed



text \<open>One turn of each network loop, and the loops in closed form.\<close>

lemma wifi_wait_step:
  "wifi_wait c e s =
     (if wifi_up e (wifi_polls s) then Resumes (s\<lparr>wifi_polls := wifi_polls s + 1\<rparr>)
      else if int (clock s) + 25 - int (start_time s) > int (wifi_timeout c)
      then esp32_sleep e (s\<lparr>wifi_polls := wifi_polls s + 1, clock := clock s + 25\<rparr>)
      else wifi_wait c e (s\<lparr>wifi_polls := wifi_polls s + 1, clock := clock s + 25\<rparr>))"
  by (subst wifi_wait.simps) (simp add: prims Let_def)

lemma wifi_wait_result:
  "\<exists>k. (\<forall>j<k. \<not> wifi_up e (wifi_polls s + j) \<and>
              int (clock s) + 25 * int (j + 1) - int (start_time s) \<le> int (wifi_timeout c)) \<and>
       (wifi_up e (wifi_polls s + k) \<and>
        wifi_wait c e s =
          Resumes (s\<lparr>wifi_polls := wifi_polls s + k + 1, clock := clock s + 25 * k\<rparr>)
        \<or>
        \<not> wifi_up e (wifi_polls s + k) \<and>
        int (clock s) + 25 * int (k + 1) - int (start_time s) > int (wifi_timeout c) \<and>
        wifi_wait c e s =
          esp32_sleep e
            (s\<lparr>wifi_polls := wifi_polls s + k + 1, clock := clock s + 25 * (k + 1)\<rparr>))"
proof (induction c e s rule: wifi_wait.induct)
  case (1 c e s)
  let ?s1 = "s\<lparr>wifi_polls := wifi_polls s + 1, clock := clock s + 25\<rparr>"
  note IH = "1.IH"[OF _ refl]
  show ?case
  proof (cases "wifi_up e (wifi_polls s)")
    case True
    then show ?thesis
      by (intro exI[of _ 0]) (simp add: wifi_wait_step)
  next
    case down: False
    show ?thesis
    proof (cases "int (clock s) + 25 - int (start_time s) > int (wifi_timeout c)")
      case True
      with down show ?thesis
        by (intro exI[of _ 0]) (simp add: wifi_wait_step)
    next
      case False
      with down have unfold: "wifi_wait c e s = wifi_wait c e ?s1"
        by (simp add: wifi_wait_step)
      have "\<exists>k. (\<forall>j<k. \<not> wifi_up e (wifi_polls ?s1 + j) \<and>
              int (clock ?s1) + 25 * int (j + 1) - int (start_time ?s1) \<le> int (wifi_timeout c)) \<and>
       (wifi_up e (wifi_polls ?s1 + k) \<and>
        wifi_wait c e ?s1 =
          Resumes (?s1\<lparr>wifi_polls := wifi_polls ?s1 + k + 1, clock := clock ?s1 + 25 * k\<rparr>)
        \<or>
        \<not> wifi_up e (wifi_polls ?s1 + k) \<and>
        int (clock ?s1) + 25 * int (k + 1) - int (start_time ?s1) > int (wifi_timeout c) \<and>
        wifi_wait c e ?s1 =
          esp32_sleep e
            (?s1\<lparr>wifi_polls := wifi_polls ?s1 + k + 1, clock := clock ?s1 + 25 * (k + 1)\<rparr>))"
        using IH down False by (simp add: prims)
      then obtain k where
        before: "\<forall>j<k. \<not> wifi_up e (wifi_polls ?s1 + j) \<and>
              int (clock ?s1) + 25 * int (j + 1) - int (start_time ?s1) \<le> int (wifi_timeout c)"
        and atk: "wifi_up e (wifi_polls ?s1 + k) \<and>
        wifi_wait c e ?s1 =
          Resumes (?s1\<lparr>wifi_polls := wifi_polls ?s1 + k + 1, clock := clock ?s1 + 25 * k\<rparr>)
        \<or>
        \<not> wifi_up e (wifi_polls ?s1 + k) \<and>
        int (clock ?s1) + 25 * int (k + 1) - int (start_time ?s1) > int (wifi_timeout c) \<and>
        wifi_wait c e ?s1 =
          esp32_sleep e
            (?s1\<lparr>wifi_polls := wifi_polls ?s1 + k + 1, clock := clock ?s1 + 25 * (k + 1)\<rparr>)"
        by blast
      have "\<forall>j<Suc k. \<not> wifi_up e (wifi_polls s + j) \<and>
              int (clock s) + 25 * int (j + 1) - int (start_time s) \<le> int (wifi_timeout c)"
        using before down False by (auto simp: less_Suc_eq_0_disj add.assoc)
      with atk unfold show ?thesis
        by (intro exI[of _ "Suc k"]) (simp add: add.assoc)
    qed
  qed
qed

lemma reconnect_loop_exit: "client_connected s \<Longrightarrow> reconnect_loop c e retry s = s"
  by (subst reconnect_loop.simps) simp

lemma reconnect_loop_step:
  "\<not> client_connected s \<Longrightarrow>
   reconnect_loop c e retry s =
     (if broker_accepts e (connect_calls s)
      then s\<lparr>connect_calls := connect_calls s + 1, client_connected := True,
             trace := trace s @ [Client_connect True]\<rparr>
      else if retry + 1 > mqtt_max_retries c
      then s\<lparr>connect_calls := connect_calls s + 1, client_connected := False,
             trace := trace s @ [Client_connect False], clock := clock s + 3000\<rparr>
      else reconnect_loop c e (retry + 1)
             (s\<lparr>connect_calls := connect_calls s + 1, client_connected := False,
                trace := trace s @ [Client_connect False], clock := clock s + 3000\<rparr>))"
  by (subst reconnect_loop.simps) (simp add: prims Let_def reconnect_loop_exit)

lemma reconnect_loop_result:
  "\<not> client_connected s \<Longrightarrow>
   \<exists>f. int f \<le> max 0 (mqtt_max_retries c - retry) + 1 \<and>
       (\<forall>j<f. \<not> broker_accepts e (connect_calls s + j)) \<and>
       (broker_accepts e (connect_calls s + f) \<and>
        reconnect_loop c e retry s =
          s\<lparr>connect_calls := connect_calls s + f + 1, client_connected := True,
            trace := trace s @ replicate f (Client_connect False) @ [Client_connect True],
            clock := clock s + 3000 * f\<rparr>
        \<or>
        int f = max 0 (mqtt_max_retries c - retry) + 1 \<and>
        reconnect_loop c e retry s =
          s\<lparr>connect_calls := connect_calls s + f, client_connected := False,
            trace := trace s @ replicate f (Client_connect False),
            clock := clock s + 3000 * f\<rparr>)"
proof (induction "nat (mqtt_max_retries c + 1 - retry)" arbitrary: retry s rule: less_induct)
  case less
  let ?s2 = "s\<lparr>connect_calls := connect_calls s + 1, client_connected := False,
                trace := trace s @ [Client_connect False], clock := clock s + 3000\<rparr>"
  show ?case
  proof (cases "broker_accepts e (connect_calls s)")
    case True
    with less.prems show ?thesis
      by (intro exI[of _ 0]) (simp add: reconnect_loop_step)
  next
    case refused: False
    show ?thesis
    proof (cases "retry + 1 > mqtt_max_retries c")
      case True
      with refused less.prems show ?thesis
        by (intro exI[of _ 1]) (simp add: reconnect_loop_step)
    next
      case False
      with refused less.prems
      have unfold: "reconnect_loop c e retry s = reconnect_loop c e (retry + 1) ?s2"
        by (simp add: reconnect_loop_step)
      have "nat (mqtt_max_retries c + 1 - (retry + 1)) < nat (mqtt_max_retries c + 1 - retry)"
        using False by simp
      moreover have "\<not> client_connected ?s2"
        by simp
      ultimately obtain f where
        bound: "int f \<le> max 0 (mqtt_max_retries c - (retry + 1)) + 1"
        and before: "\<forall>j<f. \<not> broker_accepts e (connect_calls ?s2 + j)"
        and atf: "broker_accepts e (connect_calls ?s2 + f) \<and>
        reconnect_loop c e (retry + 1) ?s2 =
          ?s2\<lparr>connect_calls := connect_calls ?s2 + f + 1, client_connected := True,
            trace := trace ?s2 @ replicate f (Client_connect False) @ [Client_connect True],
            clock := clock ?s2 + 3000 * f\<rparr>
        \<or>
        int f = max 0 (mqtt_max_retries c - (retry + 1)) + 1 \<and>
        reconnect_loop c e (retry + 1) ?s2 =
          ?s2\<lparr>connect_calls := connect_calls ?s2 + f, client_connected := False,
            trace := trace ?s2 @ replicate f (Client_connect False),
            clock := clock ?s2 + 3000 * f\<rparr>"
        using less.hyps[of "retry + 1" ?s2] by (elim meta_impE exE conjE) (assumption, assumption, rule that)
      have b': "int (Suc f) \<le> max 0 (mqtt_max_retries c - retry) + 1"
        using bound False by simp
      have e': "int f = max 0 (mqtt_max_retries c - (retry + 1)) + 1 \<Longrightarrow>
                int (Suc f) = max 0 (mqtt_max_retries c - retry) + 1"
        using False by simp
      have bf: "\<forall>j<Suc f. \<not> broker_accepts e (connect_calls s + j)"
        using before refused by (auto simp: less_Suc_eq_0_disj)
      from atf show ?thesis
      proof
        assume A: "broker_accepts e (connect_calls ?s2 + f) \<and>
        reconnect_loop c e (retry + 1) ?s2 =
          ?s2\<lparr>connect_calls := connect_calls ?s2 + f + 1, client_connected := True,
            trace := trace ?s2 @ replicate f (Client_connect False) @ [Client_connect True],
            clock := clock ?s2 + 3000 * f\<rparr>"
        then have "broker_accepts e (connect_calls s + Suc f)"
          by simp
        moreover from A unfold have "reconnect_loop c e retry s =
          s\<lparr>connect_calls := connect_calls s + Suc f + 1, client_connected := True,
            trace := trace s @ replicate (Suc f) (Client_connect False) @ [Client_connect True],
            clock := clock s + 3000 * Suc f\<rparr>"
          by (simp add: add.assoc)
        ultimately show ?thesis
          using b' bf by blast
      next
        assume A: "int f = max 0 (mqtt_max_retries c - (retry + 1)) + 1 \<and>
        reconnect_loop c e (retry + 1) ?s2 =
          ?s2\<lparr>connect_calls := connect_calls ?s2 + f, client_connected := False,
            trace := trace ?s2 @ replicate f (Client_connect False),
            clock := clock ?s2 + 3000 * f\<rparr>"
        then have "int (Suc f) = max 0 (mqtt_max_retries c - retry) + 1"
          using e' by blast
        moreover from A unfold have "reconnect_loop c e retry s =
          s\<lparr>connect_calls := connect_calls s + Suc f, client_connected := False,
            trace := trace s @ replicate (Suc f) (Client_connect False),
            clock := clock s + 3000 * Suc f\<rparr>"
          by (simp add: add.assoc)
        ultimately show ?thesis
          using b' bf by blast
      qed
    qed
  qed
qed

section \<open>The decision at boot\<close>

lemma boot_prologue_fields [simp]:
  "doorState (boot_prologue e r) = level e 0"
  "last_doorState (boot_prologue e r) = rtc_last_doorState r"
  "stuckbootCount (boot_prologue e r) = rtc_stuckbootCount r"
  "bootCount (boot_prologue e r) = rtc_bootCount r + 1"
  "time_awake_millis (boot_prologue e r) = rtc_time_awake_millis r"
  "wake_sources (boot_prologue e r) = []"
  "trace (boot_prologue e r) = []"
  "client_connected (boot_prologue e r) = False"
  "clock (boot_prologue e r) = 50"
  "currentMillis (boot_prologue e r) = 50"
  "pin_reads (boot_prologue e r) = 1"
  "wifi_polls (boot_prologue e r) = 0"
  "connect_calls (boot_prologue e r) = 0"
  by (simp_all add: boot_prologue_def wake_up_def prims Let_def)

lemma retained_fields [simp]:
  "rtc_bootCount (retained s) = bootCount s"
  "rtc_stuckbootCount (retained s) = stuckbootCount s"
  "rtc_last_doorState (retained s) = last_doorState s"
  "rtc_time_awake_millis (retained s) = time_awake_millis s"
  by (simp_all add: retained_def)

lemma final_state_simps [simp]:
  "final_state (Suspended s) = s"
  "final_state (Resumes s) = s"
  by (simp_all add: final_state_def)

lemma is_suspended_simps [simp]:
  "is_suspended (Suspended s)"
  "\<not> is_suspended (Resumes s)"
  by (simp_all add: is_suspended_def)

lemma and_then_simps [simp]:
  "and_then (Suspended s) f = Suspended s"
  "and_then (Resumes s) f = f s"
  by (simp_all add: and_then_def)

lemma setup_main_unchanged:
  "rtc_last_doorState r = level e 0 \<Longrightarrow>
   setup_main c e r = unchanged_branch e (boot_prologue e r)"
  by (simp add: setup_main_def Let_def unchanged_branch_def esp32_sleep_result)

lemma setup_main_changed:
  "rtc_last_doorState r \<noteq> level e 0 \<Longrightarrow>
   setup_main c e r = changed_branch c e (boot_prologue e r)"
  by (simp add: setup_main_def Let_def)

lemma unchanged_branch_escalates:
  "MAX_STUCK_BOOT_COUNT < stuckbootCount s + 1 \<Longrightarrow>
   unchanged_branch e s = Suspended
     (s\<lparr>stuckbootCount := stuckbootCount s + 1,
        trace := trace s @ [Publish ''/sensor/door_status'' message_door_stuck,
          Store_last_doorState (level e (pin_reads s)), Deep_sleep_start],
        wake_sources := wake_sources s @ [TimerAlarm TIMER_SLEEP_MICROSECS],
        time_awake_millis := time_awake_millis s + (int (clock s) - int (currentMillis s)),
        pin_reads := pin_reads s + 1,
        last_doorState := level e (pin_reads s)\<rparr>)"
  by (simp add: unchanged_branch_def esp32_sleep_result prims Let_def)

lemma unchanged_branch_rewaits:
  "\<not> MAX_STUCK_BOOT_COUNT < stuckbootCount s + 1 \<Longrightarrow>
   unchanged_branch e s = Suspended
     (s\<lparr>stuckbootCount := stuckbootCount s + 1,
        clock := clock s + 5000,
        wake_sources := wake_sources s @ [EdgeTrigger GPIO_DOOR_OPEN_STATE],
        time_awake_millis :=
          time_awake_millis s + (int (clock s + 5000) - int (currentMillis s)),
        pin_reads := pin_reads s + 1,
        last_doorState := level e (pin_reads s),
        trace := trace s @ [Store_last_doorState (level e (pin_reads s)), Deep_sleep_start]\<rparr>)"
  by (simp add: unchanged_branch_def esp32_sleep_result prims Let_def)

text \<open>
  Claim C9. On the cross-boot escalation path (the sample equals the retained
  \<^verbatim>\<open>last_doorState\<close> and the incremented \<^verbatim>\<open>stuckbootCount\<close> exceeds
  \<^verbatim>\<open>MAX_STUCK_BOOT_COUNT\<close>) the publish of the stuck message is the first event of the
  cycle: neither \<^verbatim>\<open>WiFi.begin\<close> nor \<^verbatim>\<open>client.connect\<close> comes before it (or at all),
  \<^verbatim>\<open>WiFi.status()\<close> is never polled and the client is not connected when the board goes
  to sleep.
\<close>

theorem stuck_escalation_publishes_unconnected:
  assumes "rtc_last_doorState r = level e 0"
    and "MAX_STUCK_BOOT_COUNT < rtc_stuckbootCount r + 1"
  shows "\<exists>s. setup_main c e r = Suspended s \<and>
           trace s = [Publish ''/sensor/door_status'' message_door_stuck,
                      Store_last_doorState (level e 1), Deep_sleep_start] \<and>
           wifi_polls s = 0 \<and> connect_calls s = 0 \<and> \<not> client_connected s"
  using assms by (simp add: setup_main_unchanged unchanged_branch_escalates)

theorem stuck_escalation_publishes_unconnected_witness:
  "\<exists>s. setup_main short_config (steady True True True) (rtc_of 5 1) = Suspended s \<and>
       trace s = [Publish ''/sensor/door_status'' message_door_stuck,
                  Store_last_doorState 1, Deep_sleep_start] \<and>
       wifi_polls s = 0 \<and> connect_calls s = 0 \<and> \<not> client_connected s"
  using stuck_escalation_publishes_unconnected
    [of "rtc_of 5 1" "steady True True True" short_config]
  by (simp add: rtc_of_def steady_def level_def sketch_consts)

section \<open>Runs of boots with an unchanged sample\<close>

lemma unchanged_branch_summary:
  "\<exists>s'. unchanged_branch e s = Suspended s' \<and>
        stuckbootCount s' = stuckbootCount s + 1 \<and>
        last_doorState s' = level e (pin_reads s) \<and>
        wake_sources s' = wake_sources s @
          [if MAX_STUCK_BOOT_COUNT < stuckbootCount s + 1
           then TimerAlarm TIMER_SLEEP_MICROSECS else EdgeTrigger GPIO_DOOR_OPEN_STATE] \<and>
        trace s' = trace s @
          (if MAX_STUCK_BOOT_COUNT < stuckbootCount s + 1
           then [Publish ''/sensor/door_status'' message_door_stuck] else []) @
          [Store_last_doorState (level e (pin_reads s)), Deep_sleep_start]"
  by (cases "MAX_STUCK_BOOT_COUNT < stuckbootCount s + 1")
     (simp_all add: unchanged_branch_escalates unchanged_branch_rewaits)

lemma length_boots [simp]: "length (boots c es r) = length es"
  by (induction es arbitrary: r) simp_all

lemma boots_unchanged_nth:
  assumes "all_unchanged c es r" and "k < length es"
  shows "\<exists>s. boots c es r ! k = Suspended s \<and>
           stuckbootCount s = rtc_stuckbootCount r + 1 + int k \<and>
           wake_sources s =
             [if MAX_STUCK_BOOT_COUNT < rtc_stuckbootCount r + 1 + int k
              then TimerAlarm TIMER_SLEEP_MICROSECS else EdgeTrigger GPIO_DOOR_OPEN_STATE] \<and>
           trace s =
             (if MAX_STUCK_BOOT_COUNT < rtc_stuckbootCount r + 1 + int k
              then [Publish ''/sensor/door_status'' message_door_stuck] else []) @
             [Store_last_doorState (level (es ! k) 1), Deep_sleep_start]"
  using assms
proof (induction es arbitrary: r k)
  case Nil
  then show ?case by simp
next
  case (Cons e es)
  from Cons.prems have same: "rtc_last_doorState r = level e 0"
    and rest: "all_unchanged c es (retained (final_state (setup_main c e r)))"
    by simp_all
  obtain s' where s': "setup_main c e r = Suspended s'"
    "stuckbootCount s' = rtc_stuckbootCount r + 1"
    "wake_sources s' =
       [if MAX_STUCK_BOOT_COUNT < rtc_stuckbootCount r + 1
        then TimerAlarm TIMER_SLEEP_MICROSECS else EdgeTrigger GPIO_DOOR_OPEN_STATE]"
    "trace s' =
       (if MAX_STUCK_BOOT_COUNT < rtc_stuckbootCount r + 1
        then [Publish ''/sensor/door_status'' message_door_stuck] else []) @
       [Store_last_doorState (level e 1), Deep_sleep_start]"
    using unchanged_branch_summary[of e "boot_prologue e r"] same
    by (auto simp: setup_main_unchanged)
  show ?case
  proof (cases k)
    case 0
    with s' show ?thesis by simp
  next
    case (Suc j)
    with Cons.prems have "j < length es" by simp
    from Cons.IH[OF rest this] s' Suc show ?thesis
      by (simp add: add.assoc)
  qed
qed

text \<open>
  Claim C1. In a run of boots that each sample the value the previous suspend stored,
  every boot adds exactly one to \<^verbatim>\<open>stuckbootCount\<close>; every boot of the run whose
  incremented count exceeds \<^verbatim>\<open>MAX_STUCK_BOOT_COUNT\<close> ends in deep sleep with the timer
  alarm as its only wake source and has published the stuck message; and once one boot of
  the run has taken the timer alarm, every later boot of the run takes it too.
\<close>

theorem stuck_escalation_monotone:
  assumes "all_unchanged c es r"
  shows "map (\<lambda>b. stuckbootCount (final_state b)) (boots c es r) =
           map (\<lambda>k. rtc_stuckbootCount r + 1 + int k) [0..<length es] \<and>
         (\<forall>k<length es. MAX_STUCK_BOOT_COUNT < rtc_stuckbootCount r + 1 + int k \<longrightarrow>
            is_suspended (boots c es r ! k) \<and>
            wake_sources (final_state (boots c es r ! k)) = [TimerAlarm TIMER_SLEEP_MICROSECS] \<and>
            Publish ''/sensor/door_status'' message_door_stuck
              \<in> set (trace (final_state (boots c es r ! k))) \<and>
            (\<forall>k'<length es. k \<le> k' \<longrightarrow>
               wake_sources (final_state (boots c es r ! k')) =
                 [TimerAlarm TIMER_SLEEP_MICROSECS]))"
proof (intro conjI allI impI)
  show "map (\<lambda>b. stuckbootCount (final_state b)) (boots c es r) =
           map (\<lambda>k. rtc_stuckbootCount r + 1 + int k) [0..<length es]"
  proof (rule nth_equalityI)
    show "length (map (\<lambda>b. stuckbootCount (final_state b)) (boots c es r)) =
          length (map (\<lambda>k. rtc_stuckbootCount r + 1 + int k) [0..<length es])"
      by simp
  next
    fix i
    assume "i < length (map (\<lambda>b. stuckbootCount (final_state b)) (boots c es r))"
    then have i: "i < length es" by simp
    from boots_unchanged_nth[OF assms i] i
    show "map (\<lambda>b. stuckbootCount (final_state b)) (boots c es r) ! i =
          map (\<lambda>k. rtc_stuckbootCount r + 1 + int k) [0..<length es] ! i"
      by auto
  qed
next
  fix k
  assume k: "k < length es" and over: "MAX_STUCK_BOOT_COUNT < rtc_stuckbootCount r + 1 + int k"
  from boots_unchanged_nth[OF assms k] over
  show "is_suspended (boots c es r ! k)"
    and "wake_sources (final_state (boots c es r ! k)) = [TimerAlarm TIMER_SLEEP_MICROSECS]"
    and "Publish ''/sensor/door_status'' message_door_stuck
              \<in> set (trace (final_state (boots c es r ! k)))"
    by auto
  fix k'
  assume k': "k' < length es" and "k \<le> k'"
  with over have "MAX_STUCK_BOOT_COUNT < rtc_stuckbootCount r + 1 + int k'"
    by simp
  with boots_unchanged_nth[OF assms k']
  show "wake_sources (final_state (boots c es r ! k')) = [TimerAlarm TIMER_SLEEP_MICROSECS]"
    by auto
qed

theorem stuck_escalation_monotone_witness:
  "map (\<lambda>b. stuckbootCount (final_state b))
     (boots short_config [steady True True True, steady True True True, steady True True True]
        (rtc_of 4 1)) = [5, 6, 7] \<and>
   is_suspended
     (boots short_config [steady True True True, steady True True True, steady True True True]
        (rtc_of 4 1) ! 1) \<and>
   wake_sources (final_state
     (boots short_config [steady True True True, steady True True True, steady True True True]
        (rtc_of 4 1) ! 1)) = [TimerAlarm TIMER_SLEEP_MICROSECS] \<and>
   wake_sources (final_state
     (boots short_config [steady True True True, steady True True True, steady True True True]
        (rtc_of 4 1) ! 2)) = [TimerAlarm TIMER_SLEEP_MICROSECS]"
proof -
  let ?es = "[steady True True True, steady True True True, steady True True True]"
  have run: "all_unchanged short_config ?es (rtc_of 4 1)"
    by (simp add: setup_main_unchanged unchanged_branch_escalates unchanged_branch_rewaits
        rtc_of_def steady_def level_def sketch_consts)
  note inst = stuck_escalation_monotone[OF run]
  from inst have counts: "map (\<lambda>b. stuckbootCount (final_state b))
      (boots short_config ?es (rtc_of 4 1)) = [5, 6, 7]"
    by (simp add: rtc_of_def upt_rec)
  from inst have "\<forall>k<length ?es. MAX_STUCK_BOOT_COUNT < rtc_stuckbootCount (rtc_of 4 1) + 1 + int k \<longrightarrow>
            is_suspended (boots short_config ?es (rtc_of 4 1) ! k) \<and>
            wake_sources (final_state (boots short_config ?es (rtc_of 4 1) ! k)) =
              [TimerAlarm TIMER_SLEEP_MICROSECS] \<and>
            Publish ''/sensor/door_status'' message_door_stuck
              \<in> set (trace (final_state (boots short_config ?es (rtc_of 4 1) ! k))) \<and>
            (\<forall>k'<length ?es. k \<le> k' \<longrightarrow>
               wake_sources (final_state (boots short_config ?es (rtc_of 4 1) ! k')) =
                 [TimerAlarm TIMER_SLEEP_MICROSECS])"
    by (rule conjunct2)
  from this[rule_format, of 1] have at1:
    "is_suspended (boots short_config ?es (rtc_of 4 1) ! 1) \<and>
     wake_sources (final_state (boots short_config ?es (rtc_of 4 1) ! 1)) =
       [TimerAlarm TIMER_SLEEP_MICROSECS] \<and>
     Publish ''/sensor/door_status'' message_door_stuck
       \<in> set (trace (final_state (boots short_config ?es (rtc_of 4 1) ! 1))) \<and>
     (\<forall>k'<length ?es. 1 \<le> k' \<longrightarrow>
        wake_sources (final_state (boots short_config ?es (rtc_of 4 1) ! k')) =
          [TimerAlarm TIMER_SLEEP_MICROSECS])"
    by (simp add: rtc_of_def sketch_consts del: boots.simps)
  then have "\<forall>k'<length ?es. 1 \<le> k' \<longrightarrow>
        wake_sources (final_state (boots short_config ?es (rtc_of 4 1) ! k')) =
          [TimerAlarm TIMER_SLEEP_MICROSECS]"
    by blast
  from this[rule_format, of 2]
  have "wake_sources (final_state (boots short_config ?es (rtc_of 4 1) ! 2)) =
       [TimerAlarm TIMER_SLEEP_MICROSECS]"
    by (simp del: boots.simps)
  with counts at1 show ?thesis
    by blast
qed

section \<open>What the network code leaves alone\<close>

lemma network_only_refl [simp]: "network_only s s"
  by (simp add: network_only_def)

lemma network_only_trans:
  "network_only s s1 \<Longrightarrow> network_only s1 s2 \<Longrightarrow> network_only s s2"
  by (auto simp: network_only_def)

lemma filter_commit_replicate [simp]:
  "filter is_commit (replicate f (Client_connect b)) = []"
  by (induction f) simp_all

lemma setup_wifi_cases:
  "\<exists>k. (\<forall>j<k. \<not> wifi_up e (wifi_polls s + j) \<and> 25 * (j + 1) \<le> wifi_timeout c) \<and>
       (wifi_up e (wifi_polls s + k) \<and>
        setup_wifi c e s =
          Resumes (s\<lparr>start_time := clock s,
                     client_connected := client_connected s \<and> \<not> wifi_restart_drops_client e,
                     trace := trace s @ [WiFi_disconnect, WiFi_begin],
                     wifi_polls := wifi_polls s + k + 1, clock := clock s + 25 * k\<rparr>)
        \<or>
        \<not> wifi_up e (wifi_polls s + k) \<and> wifi_timeout c < 25 * (k + 1) \<and>
        setup_wifi c e s =
          esp32_sleep e
            (s\<lparr>start_time := clock s,
               client_connected := client_connected s \<and> \<not> wifi_restart_drops_client e,
               trace := trace s @ [WiFi_disconnect, WiFi_begin],
               wifi_polls := wifi_polls s + k + 1, clock := clock s + 25 * (k + 1)\<rparr>))"
proof -
  let ?s3 = "s\<lparr>start_time := clock s,
      client_connected := client_connected s \<and> \<not> wifi_restart_drops_client e,
      trace := trace s @ [WiFi_disconnect, WiFi_begin]\<rparr>"
  have def: "setup_wifi c e s = wifi_wait c e ?s3"
    by (simp add: setup_wifi_def prims Let_def)
  from wifi_wait_result[of e ?s3 c] obtain k where k:
    "(\<forall>j<k. \<not> wifi_up e (wifi_polls s + j) \<and> 25 * int (j + 1) \<le> int (wifi_timeout c)) \<and>
       (wifi_up e (wifi_polls s + k) \<and>
        wifi_wait c e ?s3 =
          Resumes (?s3\<lparr>wifi_polls := wifi_polls s + k + 1, clock := clock s + 25 * k\<rparr>)
        \<or>
        \<not> wifi_up e (wifi_polls s + k) \<and> int (wifi_timeout c) < 25 * int (k + 1) \<and>
        wifi_wait c e ?s3 =
          esp32_sleep e
            (?s3\<lparr>wifi_polls := wifi_polls s + k + 1, clock := clock s + 25 * (k + 1)\<rparr>))"
    by auto
  have "\<And>j. (25 * int (j + 1) \<le> int (wifi_timeout c)) = (25 * (j + 1) \<le> wifi_timeout c)"
    by linarith
  moreover have "(int (wifi_timeout c) < 25 * int (k + 1)) = (wifi_timeout c < 25 * (k + 1))"
    by linarith
  ultimately show ?thesis
    using k unfolding def by (intro exI[of _ k]) (simp del: of_nat_add of_nat_Suc add_Suc_right One_nat_def)
qed

lemma setup_wifi_frame:
  "(\<exists>s1. setup_wifi c e s = Resumes s1 \<and> network_only s s1 \<and>
         doorState s1 = doorState s \<and> start_time s1 = clock s \<and>
         connect_calls s1 = connect_calls s) \<or>
   (\<exists>s0. setup_wifi c e s = esp32_sleep e s0 \<and> network_only s s0 \<and>
         doorState s0 = doorState s \<and> connect_calls s0 = connect_calls s)"
proof -
  from setup_wifi_cases[of e s c] obtain k where
    "setup_wifi c e s =
       Resumes (s\<lparr>start_time := clock s,
                  client_connected := client_connected s \<and> \<not> wifi_restart_drops_client e,
                  trace := trace s @ [WiFi_disconnect, WiFi_begin],
                  wifi_polls := wifi_polls s + k + 1, clock := clock s + 25 * k\<rparr>) \<or>
     setup_wifi c e s =
       esp32_sleep e
         (s\<lparr>start_time := clock s,
            client_connected := client_connected s \<and> \<not> wifi_restart_drops_client e,
            trace := trace s @ [WiFi_disconnect, WiFi_begin],
            wifi_polls := wifi_polls s + k + 1, clock := clock s + 25 * (k + 1)\<rparr>)"
    by blast
  then show ?thesis
  proof
    assume "setup_wifi c e s =
       Resumes (s\<lparr>start_time := clock s,
                  client_connected := client_connected s \<and> \<not> wifi_restart_drops_client e,
                  trace := trace s @ [WiFi_disconnect, WiFi_begin],
                  wifi_polls := wifi_polls s + k + 1, clock := clock s + 25 * k\<rparr>)"
    then show ?thesis
      by (intro disjI1) (simp add: network_only_def)
  next
    assume "setup_wifi c e s =
       esp32_sleep e
         (s\<lparr>start_time := clock s,
            client_connected := client_connected s \<and> \<not> wifi_restart_drops_client e,
            trace := trace s @ [WiFi_disconnect, WiFi_begin],
            wifi_polls := wifi_polls s + k + 1, clock := clock s + 25 * (k + 1)\<rparr>)"
    then show ?thesis
      by (intro disjI2 exI[of _ "s\<lparr>start_time := clock s,
            client_connected := client_connected s \<and> \<not> wifi_restart_drops_client e,
            trace := trace s @ [WiFi_disconnect, WiFi_begin],
            wifi_polls := wifi_polls s + k + 1, clock := clock s + 25 * (k + 1)\<rparr>"])
         (simp add: network_only_def)
  qed
qed

lemma reconnect_frame:
  "network_only s (reconnect c e s) \<and> doorState (reconnect c e s) = doorState s \<and>
   start_time (reconnect c e s) = start_time s"
proof (cases "client_connected s")
  case True
  then show ?thesis
    by (simp add: reconnect_def reconnect_loop_exit)
next
  case False
  from reconnect_loop_result[OF this, of c 0 e] show ?thesis
    by (elim exE conjE disjE) (simp_all add: reconnect_def network_only_def)
qed

lemma connect_frame:
  "(\<exists>s1. connect_WIFI_MQTT c e s = Resumes s1 \<and> network_only s s1 \<and>
         doorState s1 = doorState s \<and> start_time s1 = clock s) \<or>
   (\<exists>s0. connect_WIFI_MQTT c e s = esp32_sleep e s0 \<and> network_only s s0 \<and>
         doorState s0 = doorState s)"
  using setup_wifi_frame[of c e s]
proof (elim disjE exE conjE)
  fix s1
  assume s1: "setup_wifi c e s = Resumes s1" "network_only s s1" "doorState s1 = doorState s"
    "start_time s1 = clock s"
  let ?s2 = "if \<not> client_connected s1 then reconnect c e s1 else s1"
  have "connect_WIFI_MQTT c e s = Resumes ?s2"
    using s1 by (simp add: connect_WIFI_MQTT_def)
  moreover have "network_only s ?s2"
    using s1 reconnect_frame[of s1 c e] by (auto intro: network_only_trans)
  moreover have "doorState ?s2 = doorState s" "start_time ?s2 = clock s"
    using s1 reconnect_frame[of s1 c e] by auto
  ultimately show ?thesis
    by blast
next
  fix s0
  assume "setup_wifi c e s = esp32_sleep e s0" "network_only s s0" "doorState s0 = doorState s"
  then show ?thesis
    by (auto simp: connect_WIFI_MQTT_def esp32_sleep_result)
qed

lemma open_loop_frame:
  "network_only s (open_loop e s) \<and> start_time (open_loop e s) = start_time s"
proof (cases "doorState s = GPIO_DOOR_OPEN_STATE")
  case True
  from open_loop_result[OF this, of e] show ?thesis
    by (elim exE conjE) (simp add: network_only_def)
next
  case False
  then show ?thesis
    by (simp add: open_loop_exit)
qed

lemma open_branch_frame:
  "(\<exists>s1. open_branch c e s = Resumes s1 \<and> network_only s s1) \<or>
   (\<exists>s0. open_branch c e s = esp32_sleep e s0 \<and> network_only s s0)"
proof (cases "doorState s \<noteq> GPIO_DOOR_CLOSED_STATE")
  case False
  then show ?thesis
    by (simp add: open_branch_def)
next
  case True
  from connect_frame[of c e s] show ?thesis
  proof (elim disjE exE conjE)
    fix s1
    assume s1: "connect_WIFI_MQTT c e s = Resumes s1" "network_only s s1"
    let ?s3 = "publish ''/sensor/door_status'' message_door_open
                 (publish ''/sensor/door'' (String_of (doorState s1)) s1)"
    have "network_only s1 ?s3"
      by (simp add: network_only_def prims)
    moreover have "network_only ?s3 (open_loop e ?s3)"
      by (simp add: open_loop_frame)
    ultimately have loop: "network_only s (open_loop e ?s3)"
      using s1 by (blast intro: network_only_trans)
    let ?s4 = "open_loop e ?s3"
    let ?s8 = "(delay 250 (runtime (nat (int (millis ?s4) - int (currentMillis ?s4)
                 + time_awake_millis ?s4)) ?s4))
               \<lparr>client_connected := False,
                trace := trace ?s4 @ [Client_disconnect, WiFi_disconnect]\<rparr>"
    have "network_only ?s4 ?s8"
      by (simp add: network_only_def prims runtime_def Let_def)
    with loop have "network_only s ?s8"
      by (rule network_only_trans)
    moreover have "open_branch c e s = Resumes ?s8"
      using True s1 by (simp add: open_branch_def Let_def prims runtime_def)
    ultimately show ?thesis
      by blast
  next
    fix s0
    assume "connect_WIFI_MQTT c e s = esp32_sleep e s0" "network_only s s0"
    then show ?thesis
      using True by (auto simp: open_branch_def esp32_sleep_result)
  qed
qed

lemma changed_tail:
  "\<exists>s0. and_then (open_branch c e s)
           (\<lambda>s2. esp32_sleep e (publish ''/sensor/door_status'' message_door_closed s2)) =
         esp32_sleep e s0 \<and> network_only s s0"
  using open_branch_frame[of c e s]
proof (elim disjE exE conjE)
  fix s1
  assume "open_branch c e s = Resumes s1" "network_only s s1"
  moreover have "network_only s1 (publish ''/sensor/door_status'' message_door_closed s1)"
    by (simp add: network_only_def prims)
  ultimately show ?thesis
    by (auto intro: network_only_trans)
next
  fix s0
  assume "open_branch c e s = esp32_sleep e s0" "network_only s s0"
  then show ?thesis
    by (auto simp: esp32_sleep_result)
qed

lemma recover_branch_idle:
  "\<not> MAX_STUCK_BOOT_COUNT < stuckbootCount s \<Longrightarrow> recover_branch c e s = Resumes s"
  by (simp add: recover_branch_def)

lemma recover_branch_cases:
  assumes "MAX_STUCK_BOOT_COUNT < stuckbootCount s"
  shows "(\<exists>s1. connect_WIFI_MQTT c e s = Resumes s1 \<and> network_only s s1 \<and>
            recover_branch c e s =
              Resumes (s1\<lparr>trace := trace s1 @
                           [Publish ''/sensor/door'' (String_of (doorState s)),
                            Publish ''/sensor/door_status'' message_door_closed],
                         stuckbootCount := 0\<rparr>)) \<or>
         (\<exists>s0. connect_WIFI_MQTT c e s = esp32_sleep e s0 \<and> network_only s s0 \<and>
            recover_branch c e s = esp32_sleep e s0)"
  using connect_frame[of c e s]
proof (elim disjE exE conjE)
  fix s1
  assume "connect_WIFI_MQTT c e s = Resumes s1" "network_only s s1" "doorState s1 = doorState s"
  with assms show ?thesis
    by (intro disjI1 exI[of _ s1]) (simp add: recover_branch_def prims)
next
  fix s0
  assume "connect_WIFI_MQTT c e s = esp32_sleep e s0" "network_only s s0"
  with assms show ?thesis
    by (intro disjI2 exI[of _ s0]) (simp add: recover_branch_def esp32_sleep_result)
qed

text \<open>The part of \<^verbatim>\<open>setup()\<close> from line 316 on always ends in \<^verbatim>\<open>esp32_sleep\<close>.\<close>

lemma changed_tail_ext0:
  "\<exists>s0. and_then
           (open_branch c e (esp_sleep_enable_ext0_wakeup GPIO_DOOR_OPEN_STATE s1))
           (\<lambda>s2. esp32_sleep e (publish ''/sensor/door_status'' message_door_closed s2)) =
         esp32_sleep e s0 \<and>
         stuckbootCount s0 = stuckbootCount s1 \<and>
         wake_sources s0 = wake_sources s1 @ [EdgeTrigger GPIO_DOOR_OPEN_STATE] \<and>
         bootCount s0 = bootCount s1 \<and> currentMillis s0 = currentMillis s1 \<and>
         last_doorState s0 = last_doorState s1 \<and> pin_reads s1 \<le> pin_reads s0 \<and>
         (\<exists>ext. trace s0 = trace s1 @ ext \<and> filter is_commit ext = [])"
proof -
  from changed_tail[of c e "esp_sleep_enable_ext0_wakeup GPIO_DOOR_OPEN_STATE s1"]
  obtain s0 where "and_then
         (open_branch c e (esp_sleep_enable_ext0_wakeup GPIO_DOOR_OPEN_STATE s1))
         (\<lambda>s2. esp32_sleep e (publish ''/sensor/door_status'' message_door_closed s2)) =
       esp32_sleep e s0"
    and "network_only (esp_sleep_enable_ext0_wakeup GPIO_DOOR_OPEN_STATE s1) s0"
    by blast
  then show ?thesis
    by (intro exI[of _ s0]) (simp add: network_only_def prims)
qed

text \<open>The recovery path when the first connection attempt returns.\<close>

lemma changed_branch_recovered:
  assumes "MAX_STUCK_BOOT_COUNT < stuckbootCount s"
    and "connect_WIFI_MQTT c e s = Resumes s1"
  shows "\<exists>s0 pre post. changed_branch c e s = esp32_sleep e s0 \<and>
           stuckbootCount s0 = 0 \<and>
           wake_sources s0 = wake_sources s @ [EdgeTrigger GPIO_DOOR_OPEN_STATE] \<and>
           bootCount s0 = bootCount s \<and> currentMillis s0 = currentMillis s \<and>
           last_doorState s0 = last_doorState s \<and> pin_reads s \<le> pin_reads s0 \<and>
           trace s0 = trace s @ pre @
             [Publish ''/sensor/door'' (String_of (doorState s)),
              Publish ''/sensor/door_status'' message_door_closed] @ post \<and>
           filter is_commit pre = [] \<and> filter is_commit post = []"
proof -
  from recover_branch_cases[OF assms(1), of c e] assms(2)
  have conn: "network_only s s1"
    and rec: "recover_branch c e s =
              Resumes (s1\<lparr>trace := trace s1 @
                           [Publish ''/sensor/door'' (String_of (doorState s)),
                            Publish ''/sensor/door_status'' message_door_closed],
                         stuckbootCount := 0\<rparr>)"
    by (auto simp: esp32_sleep_result)
  let ?s2 = "s1\<lparr>trace := trace s1 @
                           [Publish ''/sensor/door'' (String_of (doorState s)),
                            Publish ''/sensor/door_status'' message_door_closed],
                         stuckbootCount := 0\<rparr>"
  from changed_tail_ext0[of c e ?s2] obtain s0 where s0:
    "and_then (open_branch c e (esp_sleep_enable_ext0_wakeup GPIO_DOOR_OPEN_STATE ?s2))
       (\<lambda>s2. esp32_sleep e (publish ''/sensor/door_status'' message_door_closed s2)) =
     esp32_sleep e s0"
    "stuckbootCount s0 = stuckbootCount ?s2"
    "wake_sources s0 = wake_sources ?s2 @ [EdgeTrigger GPIO_DOOR_OPEN_STATE]"
    "bootCount s0 = bootCount ?s2" "currentMillis s0 = currentMillis ?s2"
    "last_doorState s0 = last_doorState ?s2" "pin_reads ?s2 \<le> pin_reads s0"
    "\<exists>ext. trace s0 = trace ?s2 @ ext \<and> filter is_commit ext = []"
    by blast
  from conn obtain pre where pre: "trace s1 = trace s @ pre" "filter is_commit pre = []"
    by (auto simp: network_only_def)
  from s0(8) obtain post where post: "trace s0 = trace ?s2 @ post" "filter is_commit post = []"
    by blast
  have "trace s0 = trace s @ pre @ [Publish ''/sensor/door'' (String_of (doorState s)),
                            Publish ''/sensor/door_status'' message_door_closed] @ post"
    using pre post by simp
  moreover have "changed_branch c e s = esp32_sleep e s0"
    using rec s0(1) by (simp add: changed_branch_def)
  ultimately show ?thesis
    using s0 conn pre(2) post(2)
    by (intro exI[of _ s0] exI[of _ pre] exI[of _ post]) (simp add: network_only_def)
qed

lemma changed_branch_cases:
  "\<exists>s0. changed_branch c e s = esp32_sleep e s0 \<and>
        (stuckbootCount s0 = stuckbootCount s \<or>
         MAX_STUCK_BOOT_COUNT < stuckbootCount s \<and> stuckbootCount s0 = 0) \<and>
        (wake_sources s0 = wake_sources s \<or>
         wake_sources s0 = wake_sources s @ [EdgeTrigger GPIO_DOOR_OPEN_STATE]) \<and>
        bootCount s0 = bootCount s \<and> currentMillis s0 = currentMillis s \<and>
        last_doorState s0 = last_doorState s \<and> pin_reads s \<le> pin_reads s0 \<and>
        (\<exists>ext. trace s0 = trace s @ ext \<and> filter is_commit ext = [])"
proof (cases "MAX_STUCK_BOOT_COUNT < stuckbootCount s")
  case False
  from changed_tail_ext0[of c e s] obtain s0 where "and_then
         (open_branch c e (esp_sleep_enable_ext0_wakeup GPIO_DOOR_OPEN_STATE s))
         (\<lambda>s2. esp32_sleep e (publish ''/sensor/door_status'' message_door_closed s2)) =
       esp32_sleep e s0"
    and "stuckbootCount s0 = stuckbootCount s"
      "wake_sources s0 = wake_sources s @ [EdgeTrigger GPIO_DOOR_OPEN_STATE]"
      "bootCount s0 = bootCount s" "currentMillis s0 = currentMillis s"
      "last_doorState s0 = last_doorState s" "pin_reads s \<le> pin_reads s0"
      "\<exists>ext. trace s0 = trace s @ ext \<and> filter is_commit ext = []"
    by blast
  with False show ?thesis
    by (intro exI[of _ s0]) (simp add: changed_branch_def recover_branch_idle)
next
  case True
  from recover_branch_cases[OF True, of c e] show ?thesis
  proof (elim disjE exE conjE)
    fix s1
    assume "connect_WIFI_MQTT c e s = Resumes s1"
    from changed_branch_recovered[OF True this]
    obtain s0 pre post where s0: "changed_branch c e s = esp32_sleep e s0"
      "stuckbootCount s0 = 0"
      "wake_sources s0 = wake_sources s @ [EdgeTrigger GPIO_DOOR_OPEN_STATE]"
      "bootCount s0 = bootCount s" "currentMillis s0 = currentMillis s"
      "last_doorState s0 = last_doorState s" "pin_reads s \<le> pin_reads s0"
      and tr: "trace s0 = trace s @ pre @
             [Publish ''/sensor/door'' (String_of (doorState s)),
              Publish ''/sensor/door_status'' message_door_closed] @ post"
      "filter is_commit pre = []" "filter is_commit post = []"
      by blast
    from tr have "filter is_commit (pre @
             [Publish ''/sensor/door'' (String_of (doorState s)),
              Publish ''/sensor/door_status'' message_door_closed] @ post) = []"
      by simp
    with tr(1) have "\<exists>ext. trace s0 = trace s @ ext \<and> filter is_commit ext = []"
      by blast
    with s0 True show ?thesis
      by (intro exI[of _ s0]) simp
  next
    fix s0
    assume "network_only s s0" "recover_branch c e s = esp32_sleep e s0"
    then show ?thesis
      by (intro exI[of _ s0]) (simp add: changed_branch_def esp32_sleep_result network_only_def)
  qed
qed



section \<open>Claims about single boots\<close>

lemma level_not_unknown: "level e i \<noteq> - 99"
  by (simp add: level_def sketch_consts)

text \<open>
  Claim C3. When the retained \<^verbatim>\<open>last_doorState\<close> still holds its initial value -99, the
  comparison of line 280 fails for either level the pin can have: the cycle runs the code
  after the first \<^verbatim>\<open>if\<close>, \<^verbatim>\<open>stuckbootCount\<close> is not incremented, the 5 second settle
  delay with its edge-triggered sleep is not taken and no timer alarm is configured.
\<close>

theorem cold_start_is_changed:
  assumes "rtc_last_doorState r = - 99"
  shows "last_doorState (boot_prologue e r) \<noteq> doorState (boot_prologue e r) \<and>
         setup_main c e r = changed_branch c e (boot_prologue e r) \<and>
         setup_main c e r \<noteq> unchanged_branch e (boot_prologue e r) \<and>
         stuckbootCount (final_state (setup_main c e r)) \<noteq> rtc_stuckbootCount r + 1 \<and>
         TimerAlarm TIMER_SLEEP_MICROSECS \<notin> set (wake_sources (final_state (setup_main c e r)))"
proof -
  from assms have diff: "rtc_last_doorState r \<noteq> level e 0"
    using level_not_unknown[of e 0] by simp
  then have run: "setup_main c e r = changed_branch c e (boot_prologue e r)"
    by (rule setup_main_changed)
  from changed_branch_cases[of c e "boot_prologue e r"] obtain s0 where
    s0: "changed_branch c e (boot_prologue e r) = esp32_sleep e s0"
    and count: "stuckbootCount s0 = rtc_stuckbootCount r \<or>
         MAX_STUCK_BOOT_COUNT < rtc_stuckbootCount r \<and> stuckbootCount s0 = 0"
    and wake: "wake_sources s0 = [] \<or> wake_sources s0 = [EdgeTrigger GPIO_DOOR_OPEN_STATE]"
    by auto
  from count have "stuckbootCount s0 \<noteq> rtc_stuckbootCount r + 1"
    by (auto simp: sketch_consts)
  moreover from wake have "TimerAlarm TIMER_SLEEP_MICROSECS \<notin> set (wake_sources s0)"
    by auto
  moreover obtain s' where "unchanged_branch e (boot_prologue e r) = Suspended s'"
    "stuckbootCount s' = rtc_stuckbootCount r + 1"
    using unchanged_branch_summary[of e "boot_prologue e r"] by auto
  ultimately show ?thesis
    using diff run s0 by (auto simp: esp32_sleep_result)
qed

theorem cold_start_is_changed_witness:
  "setup_main short_config (steady True True True) rtc_cold =
     changed_branch short_config (steady True True True)
       (boot_prologue (steady True True True) rtc_cold) \<and>
   stuckbootCount (final_state (setup_main short_config (steady True True True) rtc_cold))
     \<noteq> 1"
proof -
  have cold: "rtc_last_doorState rtc_cold = - 99"
    by (simp add: rtc_cold_def)
  note inst = cold_start_is_changed[OF cold, of "steady True True True" short_config]
  from inst have "setup_main short_config (steady True True True) rtc_cold =
     changed_branch short_config (steady True True True)
       (boot_prologue (steady True True True) rtc_cold)"
    by blast
  moreover from inst have
    "stuckbootCount (final_state (setup_main short_config (steady True True True) rtc_cold))
       \<noteq> rtc_stuckbootCount rtc_cold + 1"
    by blast
  then have
    "stuckbootCount (final_state (setup_main short_config (steady True True True) rtc_cold))
       \<noteq> 1"
    by (simp add: rtc_cold_def)
  ultimately show ?thesis
    by blast
qed

text \<open>
  Claim C5, as the sketch has it. On a cold boot (retained \<^verbatim>\<open>last_doorState\<close> -99,
  \<^verbatim>\<open>stuckbootCount\<close> 0) whose sample is closed, neither WiFi nor MQTT is touched and
  \<^verbatim>\<open>client.publish\<close> is called exactly once, with the closed message on the unconnected
  client (line 394); the only wake source is the edge trigger on the open level; and
  \<^verbatim>\<open>last_doorState\<close> is stored as the level the pin has when \<^verbatim>\<open>esp32_sleep\<close> reads it.
\<close>

theorem cold_boot_closed:
  assumes "rtc_last_doorState r = - 99" and "rtc_stuckbootCount r = 0"
    and "\<not> pin_level e 0"
  shows "\<exists>s. setup_main c e r = Suspended s \<and>
           trace s = [Publish ''/sensor/door_status'' message_door_closed,
                      Store_last_doorState (level e 1), Deep_sleep_start] \<and>
           wifi_polls s = 0 \<and> connect_calls s = 0 \<and>
           wake_sources s = [EdgeTrigger GPIO_DOOR_OPEN_STATE] \<and>
           last_doorState s = level e 1 \<and> stuckbootCount s = 0"
proof -
  from assms(1) have "rtc_last_doorState r \<noteq> level e 0"
    using level_not_unknown[of e 0] by simp
  then have "setup_main c e r = changed_branch c e (boot_prologue e r)"
    by (rule setup_main_changed)
  moreover have "doorState (boot_prologue e r) = GPIO_DOOR_CLOSED_STATE"
    using assms(3) by (simp add: level_closed_iff)
  ultimately show ?thesis
    using assms(2)
    by (simp add: changed_branch_def recover_branch_def open_branch_def esp32_sleep_result
        prims sketch_consts)
qed

theorem cold_boot_closed_witness:
  "\<exists>s. setup_main short_config (steady False True True) rtc_cold = Suspended s \<and>
       trace s = [Publish ''/sensor/door_status'' message_door_closed,
                  Store_last_doorState GPIO_DOOR_CLOSED_STATE, Deep_sleep_start] \<and>
       wifi_polls s = 0 \<and> connect_calls s = 0 \<and>
       wake_sources s = [EdgeTrigger GPIO_DOOR_OPEN_STATE] \<and>
       last_doorState s = GPIO_DOOR_CLOSED_STATE \<and> stuckbootCount s = 0"
  using cold_boot_closed[of rtc_cold "steady False True True" short_config]
  by (simp add: rtc_cold_def steady_def level_def sketch_consts)

text \<open>
  Claim C5 fails as stated on this cold boot: the pin reads closed at line 266 and open
  when \<^verbatim>\<open>esp32_sleep\<close> reads it again. The cycle calls \<^verbatim>\<open>client.publish\<close> with the
  closed message, and the value committed to \<^verbatim>\<open>last_doorState\<close> is 1, the open level.
\<close>

theorem cold_boot_closed_publishes:
  "\<not> pin_level (scripted [False, True] True True) 0 \<and>
   trace (final_state (setup_main short_config (scripted [False, True] True True) rtc_cold)) =
     [Publish ''/sensor/door_status'' ''Mailbox Closed'', Store_last_doorState 1,
      Deep_sleep_start] \<and>
   last_doorState
     (final_state (setup_main short_config (scripted [False, True] True True) rtc_cold)) = 1"
  by (simp add: setup_main_def boot_prologue_def wake_up_def changed_branch_def
      recover_branch_def open_branch_def esp32_sleep_def and_then_def prims level_def
      rtc_cold_def scripted_def short_config_def message_door_closed_def sketch_consts Let_def)

text \<open>
  The recovery path with a WiFi network that never comes up, on the concrete input of
  claims C2 and C6: stuck count 6, stored state open, pin closed, timeout 100 ms.
\<close>

lemma recovery_without_wifi:
  "setup_main short_config (steady False False False) (rtc_of 6 1) =
     Suspended
       \<lparr>bootCount = 8, stuckbootCount = 6, last_doorState = 0, time_awake_millis = 125,
        currentMillis = 50, doorState = 0, start_time = 50, total_time_awake = (0, 0, 0),
        clock = 175, pin_reads = 2, wifi_polls = 5, connect_calls = 0,
        client_connected = False, wake_sources = [],
        trace = [WiFi_disconnect, WiFi_begin, Store_last_doorState 0, Deep_sleep_start]\<rparr>"
  by (simp add: setup_main_def boot_prologue_def wake_up_def changed_branch_def
      recover_branch_def connect_WIFI_MQTT_def setup_wifi_def wifi_wait_step
      esp32_sleep_def and_then_def prims level_def
      rtc_of_def steady_def short_config_def sketch_consts Let_def)

text \<open>
  Claim C6, at its failing input. A boot that finds the stuck count above the threshold and
  a changed sample calls \<^verbatim>\<open>connect_WIFI_MQTT\<close> at line 307, before the only
  \<^verbatim>\<open>esp_sleep_enable_ext0_wakeup\<close> of that path at line 318. When WiFi does not come up,
  \<^verbatim>\<open>setup_wifi\<close> calls \<^verbatim>\<open>esp32_sleep\<close> itself, and the board enters deep sleep with no
  wake source configured.
\<close>

theorem recovery_wifi_timeout_sleeps_without_wake_source:
  "is_suspended (setup_main short_config (steady False False False) (rtc_of 6 1)) \<and>
   wake_sources (final_state
     (setup_main short_config (steady False False False) (rtc_of 6 1))) = []"
  by (simp add: recovery_without_wifi)




section \<open>The door variable and the value stored at suspend\<close>

lemma door_fresh_out_simps [simp]:
  "door_fresh_out e (Resumes s) = door_fresh e s"
  "door_fresh_out e (Suspended s) =
     (2 \<le> pin_reads s \<and> doorState s = level e (pin_reads s - 2))"
  by (simp_all add: door_fresh_out_def)













section \<open>The waiting loops of the network code\<close>

text \<open>
  With a link that stays up once the broker has accepted it, every boot ends in the
  suspend call, a run of \<^verbatim>\<open>setup_wifi\<close> lasts at most \<^verbatim>\<open>wifi_timeout\<close> plus one poll of
  25 ms, and a run of \<^verbatim>\<open>reconnect\<close> makes at most \<^verbatim>\<open>mqtt_max_retries + 1\<close> failed attempts.
\<close>

lemma setup_main_suspends: "\<exists>s. setup_main c e r = Suspended s"
proof (cases "rtc_last_doorState r = level e 0")
  case True
  then show ?thesis
    using unchanged_branch_summary[of e "boot_prologue e r"]
    by (auto simp: setup_main_unchanged)
next
  case False
  then show ?thesis
    using changed_branch_cases[of c e "boot_prologue e r"]
    by (auto simp: setup_main_changed esp32_sleep_result)
qed

lemma setup_wifi_bounded:
  "clock (final_state (setup_wifi c e s)) \<le> clock s + wifi_timeout c + 25 \<and>
   wifi_polls (final_state (setup_wifi c e s)) \<le> wifi_polls s + wifi_timeout c div 25 + 1"
proof -
  from setup_wifi_cases[of e s c] obtain k where
    before: "\<forall>j<k. \<not> wifi_up e (wifi_polls s + j) \<and> 25 * (j + 1) \<le> wifi_timeout c"
    and cases: "setup_wifi c e s =
          Resumes (s\<lparr>start_time := clock s,
                     client_connected := client_connected s \<and> \<not> wifi_restart_drops_client e,
                     trace := trace s @ [WiFi_disconnect, WiFi_begin],
                     wifi_polls := wifi_polls s + k + 1, clock := clock s + 25 * k\<rparr>)
        \<or>
        setup_wifi c e s =
          esp32_sleep e
            (s\<lparr>start_time := clock s,
               client_connected := client_connected s \<and> \<not> wifi_restart_drops_client e,
               trace := trace s @ [WiFi_disconnect, WiFi_begin],
               wifi_polls := wifi_polls s + k + 1, clock := clock s + 25 * (k + 1)\<rparr>)"
    by blast
  from cases have alt: "clock (final_state (setup_wifi c e s)) \<le> clock s + 25 * (k + 1) \<and>
              wifi_polls (final_state (setup_wifi c e s)) = wifi_polls s + k + 1"
    by (elim disjE) (simp_all add: esp32_sleep_result)
  have k: "25 * k \<le> wifi_timeout c"
  proof (cases k)
    case 0
    then show ?thesis by simp
  next
    case (Suc j)
    with before have "25 * (j + 1) \<le> wifi_timeout c"
      by simp
    with Suc show ?thesis by simp
  qed
  then have "k \<le> wifi_timeout c div 25"
    by (simp add: less_eq_div_iff_mult_less_eq mult.commute)
  with k alt show ?thesis
    by auto
qed

lemma reconnect_bounded:
  "\<exists>f ok. int f \<le> max 0 (mqtt_max_retries c) + 1 \<and>
     trace (reconnect c e s) =
       trace s @ replicate f (Client_connect False) @ (if ok then [Client_connect True] else []) \<and>
     clock (reconnect c e s) = clock s + 3000 * f"
proof (cases "client_connected s")
  case True
  then show ?thesis
    by (intro exI[of _ 0] exI[of _ False]) (simp add: reconnect_def reconnect_loop_exit)
next
  case False
  from reconnect_loop_result[OF this, of c 0 e] obtain f where
    f: "int f \<le> max 0 (mqtt_max_retries c) + 1"
    and alt: "reconnect c e s =
          s\<lparr>connect_calls := connect_calls s + f + 1, client_connected := True,
            trace := trace s @ replicate f (Client_connect False) @ [Client_connect True],
            clock := clock s + 3000 * f\<rparr> \<or>
        reconnect c e s =
          s\<lparr>connect_calls := connect_calls s + f, client_connected := False,
            trace := trace s @ replicate f (Client_connect False),
            clock := clock s + 3000 * f\<rparr>"
    by (auto simp: reconnect_def)
  from alt show ?thesis
  proof
    assume "reconnect c e s =
          s\<lparr>connect_calls := connect_calls s + f + 1, client_connected := True,
            trace := trace s @ replicate f (Client_connect False) @ [Client_connect True],
            clock := clock s + 3000 * f\<rparr>"
    with f show ?thesis
      by (intro exI[of _ f] exI[of _ True]) simp
  next
    assume "reconnect c e s =
          s\<lparr>connect_calls := connect_calls s + f, client_connected := False,
            trace := trace s @ replicate f (Client_connect False),
            clock := clock s + 3000 * f\<rparr>"
    with f show ?thesis
      by (intro exI[of _ f] exI[of _ False]) simp
  qed
qed

text \<open>A broker that refuses every attempt: \<^verbatim>\<open>reconnect\<close> gives up after the last retry.\<close>

lemma reconnect_refused:
  assumes "\<not> client_connected s" and "\<forall>i. \<not> broker_accepts e i"
    and "int f = max 0 (mqtt_max_retries c) + 1"
  shows "reconnect c e s =
           s\<lparr>connect_calls := connect_calls s + f, client_connected := False,
             trace := trace s @ replicate f (Client_connect False),
             clock := clock s + 3000 * f\<rparr>"
proof -
  from reconnect_loop_result[OF assms(1), of c 0 e] assms(2) obtain f' where
    "int f' = max 0 (mqtt_max_retries c) + 1"
    "reconnect c e s =
          s\<lparr>connect_calls := connect_calls s + f', client_connected := False,
            trace := trace s @ replicate f' (Client_connect False),
            clock := clock s + 3000 * f'\<rparr>"
    by (auto simp: reconnect_def)
  moreover from this(1) assms(3) have "f' = f"
    by simp
  ultimately show ?thesis
    by simp
qed

text \<open>
  The loop \<open>reconnect_loop\<close> is \<open>reconnect_fuel\<close> for a client that reports connected
  exactly after the calls of \<^verbatim>\<open>client.connect()\<close> that succeeded: some number of
  iterations is enough, and whenever \<open>reconnect_fuel\<close> returns it returns that state.
\<close>

lemma reconnect_fuel_enough:
  "\<exists>n. reconnect_fuel n (broker_accepts e) c e retry s = Some (reconnect_loop c e retry s)"
proof (induction c e retry s rule: reconnect_loop.induct)
  case (1 c e retry s)
  let ?ok = "broker_accepts e (connect_calls s)"
  let ?s1 = "s\<lparr>connect_calls := connect_calls s + 1, client_connected := ?ok,
                trace := trace s @ [Client_connect ?ok]\<rparr>"
  show ?case
  proof (cases "client_connected s")
    case True
    then show ?thesis
      by (intro exI[of _ 0]) (simp add: reconnect_loop_exit)
  next
    case off: False
    show ?thesis
    proof (cases ?ok)
      case True
      with off have "reconnect_loop c e retry s = ?s1"
        by (subst reconnect_loop.simps) (simp add: Let_def reconnect_loop_exit)
      with off True show ?thesis
        by (intro exI[of _ "Suc 0"]) (simp add: Let_def)
    next
      case no: False
      show ?thesis
      proof (cases "retry + 1 > mqtt_max_retries c")
        case True
        with off no have "reconnect_loop c e retry s = delay 3000 ?s1"
          by (subst reconnect_loop.simps) (simp add: Let_def)
        with off no True show ?thesis
          by (intro exI[of _ "Suc 0"]) (simp add: Let_def)
      next
        case False
        from "1.IH"(2)[OF off refl refl _ refl refl False] no
        obtain n where n: "reconnect_fuel n (broker_accepts e) c e (retry + 1) (delay 3000 ?s1) =
            Some (reconnect_loop c e (retry + 1) (delay 3000 ?s1))"
          by auto
        from off no False have "reconnect_loop c e retry s =
            reconnect_loop c e (retry + 1) (delay 3000 ?s1)"
          by (subst reconnect_loop.simps) (simp add: Let_def)
        with off no False n show ?thesis
          by (intro exI[of _ "Suc n"]) (simp add: Let_def)
      qed
    qed
  qed
qed

lemma reconnect_fuel_agrees:
  "reconnect_fuel n (broker_accepts e) c e retry s = Some s' \<Longrightarrow> s' = reconnect_loop c e retry s"
proof (induction n arbitrary: retry s)
  case 0
  then show ?case
    by (simp add: reconnect_loop_exit split: if_splits)
next
  case (Suc n)
  show ?case
  proof (cases "client_connected s")
    case True
    with Suc.prems show ?thesis
      by (simp add: reconnect_loop_exit)
  next
    case False
    with Suc.prems Suc.IH show ?thesis
      by (subst reconnect_loop.simps) (auto simp: Let_def split: if_splits)
  qed
qed

text \<open>
  A broker that accepts every connection while the client never reports connected: no
  number of iterations is enough.
\<close>

lemma reconnect_fuel_spins:
  assumes "\<forall>i. broker_accepts e i" and "\<forall>i. \<not> connected_after i"
  shows "\<not> client_connected s \<Longrightarrow> reconnect_fuel n connected_after c e retry s = None"
  using assms by (induction n arbitrary: s) (simp_all add: Let_def)

text \<open>
  Claim C7, at its failing inputs. A boot finds the door open (it was closed at the last
  boot) and the WiFi network up at the first poll, so \<^verbatim>\<open>setup_wifi\<close> returns and line 328
  reaches \<^verbatim>\<open>reconnect()\<close> with the client not connected. First input: the broker accepts
  every \<^verbatim>\<open>client.connect()\<close> and \<^verbatim>\<open>client.connected()\<close> stays false. The loop of lines 163
  to 184 counts only failed calls, so it is not left after any number of iterations and
  the boot does not reach \<^verbatim>\<open>esp32_sleep\<close>. Second input: \<^verbatim>\<open>mqtt_max_retries\<close> is 2 and the
  broker refuses every call. The loop is left after three iterations, with three failed
  attempts and 9000 ms of delay, one attempt more than \<^verbatim>\<open>mqtt_max_retries\<close>.
\<close>

theorem reconnect_spins_when_link_drops:
  "setup_wifi short_config (steady True True True)
     (esp_sleep_enable_ext0_wakeup GPIO_DOOR_OPEN_STATE
        (boot_prologue (steady True True True) (rtc_of 0 0))) =
     Resumes (at_reconnect short_config (steady True True True) (rtc_of 0 0)) \<and>
   \<not> client_connected (at_reconnect short_config (steady True True True) (rtc_of 0 0)) \<and>
   (\<forall>n. reconnect_fuel n (\<lambda>i. False) short_config (steady True True True) 0
          (at_reconnect short_config (steady True True True) (rtc_of 0 0)) = None) \<and>
   mqtt_max_retries short_config = 2 \<and>
   reconnect_fuel 3 (\<lambda>i. False) short_config (steady True True False) 0
     (at_reconnect short_config (steady True True False) (rtc_of 0 0)) =
     Some (reconnect short_config (steady True True False)
            (at_reconnect short_config (steady True True False) (rtc_of 0 0))) \<and>
   trace (reconnect short_config (steady True True False)
            (at_reconnect short_config (steady True True False) (rtc_of 0 0))) =
     [WiFi_disconnect, WiFi_begin, Client_connect False, Client_connect False,
      Client_connect False] \<and>
   clock (reconnect short_config (steady True True False)
            (at_reconnect short_config (steady True True False) (rtc_of 0 0))) = 9050"
proof -
  let ?up = "steady True True True" and ?down = "steady True True False"
  have wifi: "setup_wifi short_config e
       (esp_sleep_enable_ext0_wakeup GPIO_DOOR_OPEN_STATE (boot_prologue e (rtc_of 0 0))) =
     Resumes (at_reconnect short_config e (rtc_of 0 0))"
    if "wifi_up e 0" for e
    using that by (simp add: at_reconnect_def setup_wifi_def wifi_wait_step prims Let_def)
  have off: "\<not> client_connected (at_reconnect short_config e (rtc_of 0 0))"
    if "wifi_up e 0" "wifi_restart_drops_client e" for e
    using that by (simp add: at_reconnect_def setup_wifi_def wifi_wait_step prims Let_def)
  have a: "setup_wifi short_config ?up
       (esp_sleep_enable_ext0_wakeup GPIO_DOOR_OPEN_STATE (boot_prologue ?up (rtc_of 0 0))) =
     Resumes (at_reconnect short_config ?up (rtc_of 0 0))"
    by (rule wifi) (simp add: steady_def)
  have b: "\<not> client_connected (at_reconnect short_config ?up (rtc_of 0 0))"
    by (rule off) (simp_all add: steady_def)
  have c: "\<forall>n. reconnect_fuel n (\<lambda>i. False) short_config ?up 0
          (at_reconnect short_config ?up (rtc_of 0 0)) = None"
    using b by (intro allI reconnect_fuel_spins) (simp_all add: steady_def)
  have d: "mqtt_max_retries short_config = 2"
    by (simp add: short_config_def)
  have off': "\<not> client_connected (at_reconnect short_config ?down (rtc_of 0 0))"
    by (rule off) (simp_all add: steady_def)
  have res: "reconnect short_config ?down (at_reconnect short_config ?down (rtc_of 0 0)) =
      (at_reconnect short_config ?down (rtc_of 0 0))
        \<lparr>connect_calls := connect_calls (at_reconnect short_config ?down (rtc_of 0 0)) + 3,
         client_connected := False,
         trace := trace (at_reconnect short_config ?down (rtc_of 0 0)) @
           replicate 3 (Client_connect False),
         clock := clock (at_reconnect short_config ?down (rtc_of 0 0)) + 3000 * 3\<rparr>"
    by (rule reconnect_refused[OF off']) (simp_all add: steady_def short_config_def)
  have e: "reconnect_fuel 3 (\<lambda>i. False) short_config ?down 0
     (at_reconnect short_config ?down (rtc_of 0 0)) =
     Some (reconnect short_config ?down (at_reconnect short_config ?down (rtc_of 0 0)))"
    unfolding res using off'
    by (simp add: eval_nat_numeral Let_def prims steady_def short_config_def)
  have f: "trace (reconnect short_config ?down (at_reconnect short_config ?down (rtc_of 0 0))) =
     [WiFi_disconnect, WiFi_begin, Client_connect False, Client_connect False,
      Client_connect False] \<and>
   clock (reconnect short_config ?down (at_reconnect short_config ?down (rtc_of 0 0))) = 9050"
    unfolding res
    by (simp add: at_reconnect_def setup_wifi_def wifi_wait_step prims Let_def steady_def
        eval_nat_numeral)
  from a b c d e f show ?thesis
    by blast
qed

section \<open>The open-door loop and its timeout\<close>

lemma open_loop_never_closed:
  assumes "doorState s = GPIO_DOOR_OPEN_STATE" and "\<forall>i\<ge>pin_reads s. pin_level e i"
  shows "\<exists>n. open_loop e s =
           s\<lparr>pin_reads := pin_reads s + n + 1, doorState := GPIO_DOOR_OPEN_STATE,
             clock := clock s + 50 * (n + 1),
             trace := trace s @ [Publish ''/sensor/door_status'' message_door_stuck]\<rparr> \<and>
           MAX_OPENDOOR_TIME < int (clock s) + 50 * int n - int (start_time s) \<and>
           (\<forall>j<n. int (clock s) + 50 * int j - int (start_time s) \<le> MAX_OPENDOOR_TIME)"
proof -
  from open_loop_result[OF assms(1), of e] obtain n where
    res: "open_loop e s =
         s\<lparr>pin_reads := pin_reads s + n + 1,
           doorState := level e (pin_reads s + n),
           clock := clock s + 50 * (n + 1),
           trace := trace s @
             (if int (clock s) + 50 * int n - int (start_time s) > MAX_OPENDOOR_TIME
              then [Publish ''/sensor/door_status'' message_door_stuck] else [])\<rparr>"
    and before: "\<forall>j<n. pin_level e (pin_reads s + j) \<and>
                  int (clock s) + 50 * int j - int (start_time s) \<le> MAX_OPENDOOR_TIME"
    and atn: "int (clock s) + 50 * int n - int (start_time s) > MAX_OPENDOOR_TIME \<or>
          \<not> pin_level e (pin_reads s + n)"
    by blast
  from assms(2) have up: "pin_level e (pin_reads s + n)"
    by simp
  with atn have late: "MAX_OPENDOOR_TIME < int (clock s) + 50 * int n - int (start_time s)"
    by blast
  from up have "level e (pin_reads s + n) = GPIO_DOOR_OPEN_STATE"
    by (simp add: level_open_iff)
  with res late before show ?thesis
    by (intro exI[of _ n]) simp
qed

lemma open_loop_closes:
  assumes "doorState s = GPIO_DOOR_OPEN_STATE" and "\<not> pin_level e (pin_reads s + j)"
    and "int (clock s) + 50 * int j - int (start_time s) \<le> MAX_OPENDOOR_TIME"
  shows "trace (open_loop e s) = trace s \<and>
         doorState (open_loop e s) = GPIO_DOOR_CLOSED_STATE \<and>
         clock (open_loop e s) \<le> clock s + 50 * (j + 1)"
proof -
  from open_loop_result[OF assms(1), of e] obtain n where
    res: "open_loop e s =
         s\<lparr>pin_reads := pin_reads s + n + 1,
           doorState := level e (pin_reads s + n),
           clock := clock s + 50 * (n + 1),
           trace := trace s @
             (if int (clock s) + 50 * int n - int (start_time s) > MAX_OPENDOOR_TIME
              then [Publish ''/sensor/door_status'' message_door_stuck] else [])\<rparr>"
    and before: "\<forall>j<n. pin_level e (pin_reads s + j) \<and>
                  int (clock s) + 50 * int j - int (start_time s) \<le> MAX_OPENDOOR_TIME"
    and atn: "int (clock s) + 50 * int n - int (start_time s) > MAX_OPENDOOR_TIME \<or>
          \<not> pin_level e (pin_reads s + n)"
    by blast
  have "n \<le> j"
  proof (rule ccontr)
    assume "\<not> n \<le> j"
    then have "j < n" by simp
    with before assms(2) show False by blast
  qed
  with assms(3) have early: "\<not> MAX_OPENDOOR_TIME < int (clock s) + 50 * int n - int (start_time s)"
    by simp
  with atn have "\<not> pin_level e (pin_reads s + n)"
    by blast
  then have "level e (pin_reads s + n) = GPIO_DOOR_CLOSED_STATE"
    by (simp add: level_closed_iff)
  with res early \<open>n \<le> j\<close> show ?thesis
    by simp
qed

text \<open>
  The two exits of the loop. If the pin never reads closed again, the loop leaves through
  the timeout and publishes the stuck message exactly once, in the first iteration whose
  \<^verbatim>\<open>elapsed_time\<close> exceeds \<^verbatim>\<open>MAX_OPENDOOR_TIME\<close>. If the pin reads closed in an iteration
  whose \<^verbatim>\<open>elapsed_time\<close> does not exceed \<^verbatim>\<open>MAX_OPENDOOR_TIME\<close>, the loop ends by then without
  publishing the stuck message.
\<close>

lemma open_loop_timeout_bound:
  assumes "doorState s = GPIO_DOOR_OPEN_STATE"
  shows "((\<forall>i\<ge>pin_reads s. pin_level e i) \<longrightarrow>
           (\<exists>n. clock (open_loop e s) = clock s + 50 * (n + 1) \<and>
                MAX_OPENDOOR_TIME < int (clock s) + 50 * int n - int (start_time s) \<and>
                (int (clock s) - int (start_time s) \<le> MAX_OPENDOOR_TIME \<longrightarrow>
                   int (clock s) + 50 * int n - int (start_time s) \<le> MAX_OPENDOOR_TIME + 50) \<and>
                (MAX_OPENDOOR_TIME < int (clock s) - int (start_time s) \<longrightarrow> n = 0) \<and>
                trace (open_loop e s) =
                  trace s @ [Publish ''/sensor/door_status'' message_door_stuck])) \<and>
         (\<forall>j. \<not> pin_level e (pin_reads s + j) \<and>
               int (clock s) + 50 * int j - int (start_time s) \<le> MAX_OPENDOOR_TIME \<longrightarrow>
               trace (open_loop e s) = trace s \<and>
               doorState (open_loop e s) = GPIO_DOOR_CLOSED_STATE \<and>
               clock (open_loop e s) \<le> clock s + 50 * (j + 1))"
proof (intro conjI impI allI)
  assume "\<forall>i\<ge>pin_reads s. pin_level e i"
  from open_loop_never_closed[OF assms this] obtain n where
    res: "open_loop e s =
           s\<lparr>pin_reads := pin_reads s + n + 1, doorState := GPIO_DOOR_OPEN_STATE,
             clock := clock s + 50 * (n + 1),
             trace := trace s @ [Publish ''/sensor/door_status'' message_door_stuck]\<rparr>"
    and late: "MAX_OPENDOOR_TIME < int (clock s) + 50 * int n - int (start_time s)"
    and before: "\<forall>j<n. int (clock s) + 50 * int j - int (start_time s) \<le> MAX_OPENDOOR_TIME"
    by blast
  have one: "int (clock s) - int (start_time s) \<le> MAX_OPENDOOR_TIME \<Longrightarrow>
       int (clock s) + 50 * int n - int (start_time s) \<le> MAX_OPENDOOR_TIME + 50"
  proof (cases n)
    case 0
    assume "int (clock s) - int (start_time s) \<le> MAX_OPENDOOR_TIME"
    with 0 show ?thesis by simp
  next
    case (Suc m)
    with before have "int (clock s) + 50 * int m - int (start_time s) \<le> MAX_OPENDOOR_TIME"
      by simp
    with Suc show ?thesis by simp
  qed
  have first: "MAX_OPENDOOR_TIME < int (clock s) - int (start_time s) \<Longrightarrow> n = 0"
  proof (rule ccontr)
    assume over: "MAX_OPENDOOR_TIME < int (clock s) - int (start_time s)" and "n \<noteq> 0"
    then have "0 < n" by simp
    with before have "int (clock s) + 50 * int 0 - int (start_time s) \<le> MAX_OPENDOOR_TIME"
      by blast
    with over show False by simp
  qed
  from res late one first
  show "\<exists>n. clock (open_loop e s) = clock s + 50 * (n + 1) \<and>
                MAX_OPENDOOR_TIME < int (clock s) + 50 * int n - int (start_time s) \<and>
                (int (clock s) - int (start_time s) \<le> MAX_OPENDOOR_TIME \<longrightarrow>
                   int (clock s) + 50 * int n - int (start_time s) \<le> MAX_OPENDOOR_TIME + 50) \<and>
                (MAX_OPENDOOR_TIME < int (clock s) - int (start_time s) \<longrightarrow> n = 0) \<and>
                trace (open_loop e s) =
                  trace s @ [Publish ''/sensor/door_status'' message_door_stuck]"
    by (intro exI[of _ n]) simp
next
  fix j
  assume "\<not> pin_level e (pin_reads s + j) \<and>
               int (clock s) + 50 * int j - int (start_time s) \<le> MAX_OPENDOOR_TIME"
  with open_loop_closes[OF assms, of e j]
  show "trace (open_loop e s) = trace s"
    and "doorState (open_loop e s) = GPIO_DOOR_CLOSED_STATE"
    and "clock (open_loop e s) \<le> clock s + 50 * (j + 1)"
    by simp_all
qed

lemma start_time_boot_prologue [simp]: "start_time (boot_prologue e r) = 0"
  by (simp add: boot_prologue_def wake_up_def prims Let_def)

lemma open_loop_timeout_bound_example:
  "trace (open_loop (steady True True True)
           (boot_prologue (steady True True True) (rtc_of 0 0))) =
     [Publish ''/sensor/door_status'' message_door_stuck] \<and>
   clock (open_loop (steady True True True)
           (boot_prologue (steady True True True) (rtc_of 0 0))) = 30100 \<and>
   trace (open_loop (scripted [True, True] True True)
           (boot_prologue (scripted [True, True] True True) (rtc_of 0 0))) = [] \<and>
   doorState (open_loop (scripted [True, True] True True)
           (boot_prologue (scripted [True, True] True True) (rtc_of 0 0))) =
     GPIO_DOOR_CLOSED_STATE"
proof -
  let ?e = "steady True True True" and ?e' = "scripted [True, True] True True"
  have op: "doorState (boot_prologue ?e (rtc_of 0 0)) = GPIO_DOOR_OPEN_STATE"
    by (simp add: level_def steady_def sketch_consts)
  have never: "\<forall>i\<ge>pin_reads (boot_prologue ?e (rtc_of 0 0)). pin_level ?e i"
    by (simp add: steady_def)
  from open_loop_timeout_bound[OF op, of ?e] never
  obtain n where "clock (open_loop ?e (boot_prologue ?e (rtc_of 0 0))) = 50 + 50 * (n + 1)"
    "MAX_OPENDOOR_TIME < 50 + 50 * int n" "50 + 50 * int n \<le> MAX_OPENDOOR_TIME + 50"
    "trace (open_loop ?e (boot_prologue ?e (rtc_of 0 0))) =
       [Publish ''/sensor/door_status'' message_door_stuck]"
    by (auto simp: sketch_consts)
  then have a: "trace (open_loop ?e (boot_prologue ?e (rtc_of 0 0))) =
       [Publish ''/sensor/door_status'' message_door_stuck] \<and>
     clock (open_loop ?e (boot_prologue ?e (rtc_of 0 0))) = 30100"
    by (simp add: sketch_consts)
  have op': "doorState (boot_prologue ?e' (rtc_of 0 0)) = GPIO_DOOR_OPEN_STATE"
    by (simp add: level_def scripted_def sketch_consts)
  have closed: "\<not> pin_level ?e' (pin_reads (boot_prologue ?e' (rtc_of 0 0)) + 1) \<and>
      int (clock (boot_prologue ?e' (rtc_of 0 0))) + 50 * int 1
        - int (start_time (boot_prologue ?e' (rtc_of 0 0))) \<le> MAX_OPENDOOR_TIME"
    by (simp add: scripted_def boot_prologue_def wake_up_def prims sketch_consts Let_def)
  from open_loop_timeout_bound[OF op', of ?e']
  have "\<forall>j. \<not> pin_level ?e' (pin_reads (boot_prologue ?e' (rtc_of 0 0)) + j) \<and>
          int (clock (boot_prologue ?e' (rtc_of 0 0))) + 50 * int j
            - int (start_time (boot_prologue ?e' (rtc_of 0 0))) \<le> MAX_OPENDOOR_TIME \<longrightarrow>
          trace (open_loop ?e' (boot_prologue ?e' (rtc_of 0 0))) =
            trace (boot_prologue ?e' (rtc_of 0 0)) \<and>
          doorState (open_loop ?e' (boot_prologue ?e' (rtc_of 0 0))) = GPIO_DOOR_CLOSED_STATE \<and>
          clock (open_loop ?e' (boot_prologue ?e' (rtc_of 0 0)))
            \<le> clock (boot_prologue ?e' (rtc_of 0 0)) + 50 * (j + 1)"
    by (rule conjunct2)
  from this[rule_format, of 1, OF closed]
  have b: "trace (open_loop ?e' (boot_prologue ?e' (rtc_of 0 0))) = [] \<and>
     doorState (open_loop ?e' (boot_prologue ?e' (rtc_of 0 0))) = GPIO_DOOR_CLOSED_STATE"
    by simp
  from a b show ?thesis
    by blast
qed

lemma connect_broker_down:
  assumes "wifi_up e (wifi_polls s)" and "\<forall>i. \<not> broker_accepts e i"
    and "wifi_restart_drops_client e" and "int f = max 0 (mqtt_max_retries c) + 1"
  shows "connect_WIFI_MQTT c e s =
           Resumes (s\<lparr>start_time := clock s, wifi_polls := wifi_polls s + 1,
                      connect_calls := connect_calls s + f, client_connected := False,
                      trace := trace s @ [WiFi_disconnect, WiFi_begin] @
                        replicate f (Client_connect False),
                      clock := clock s + 3000 * f\<rparr>)"
proof -
  let ?s1 = "s\<lparr>start_time := clock s, client_connected := False,
      trace := trace s @ [WiFi_disconnect, WiFi_begin], wifi_polls := wifi_polls s + 1\<rparr>"
  have "setup_wifi c e s = Resumes ?s1"
    using assms(1,3) by (simp add: setup_wifi_def wifi_wait_step prims Let_def)
  moreover have "reconnect c e ?s1 =
           ?s1\<lparr>connect_calls := connect_calls ?s1 + f, client_connected := False,
             trace := trace ?s1 @ replicate f (Client_connect False),
             clock := clock ?s1 + 3000 * f\<rparr>"
    by (rule reconnect_refused) (simp_all add: assms)
  ultimately show ?thesis
    by (simp add: connect_WIFI_MQTT_def)
qed

lemma String_of_level: "String_of (level e i) = (if pin_level e i then ''1'' else ''0'')"
  by (simp add: String_of_def level_def decimal.simps sketch_consts)

text \<open>The two branches after line 316, spelled out for a given outcome of their parts.\<close>

lemma changed_branch_idle:
  "\<not> MAX_STUCK_BOOT_COUNT < stuckbootCount s \<Longrightarrow>
   changed_branch c e s =
     and_then (open_branch c e (esp_sleep_enable_ext0_wakeup GPIO_DOOR_OPEN_STATE s))
       (\<lambda>s2. esp32_sleep e (publish ''/sensor/door_status'' message_door_closed s2))"
  by (simp add: changed_branch_def recover_branch_idle)

lemma open_branch_unfold:
  assumes "doorState s \<noteq> GPIO_DOOR_CLOSED_STATE"
    and "connect_WIFI_MQTT c e s = Resumes s1"
    and "open_loop e (publish ''/sensor/door_status'' message_door_open
           (publish ''/sensor/door'' (String_of (doorState s1)) s1)) = s4"
  shows "open_branch c e s =
     Resumes (s4\<lparr>total_time_awake := total_time_awake
                  (runtime (nat (int (clock s4) - int (currentMillis s4)
                     + time_awake_millis s4)) s4),
                clock := clock s4 + 250, client_connected := False,
                trace := trace s4 @ [Client_disconnect, WiFi_disconnect]\<rparr>)"
  using assms by (simp add: open_branch_def Let_def prims runtime_def)

text \<open>
  Claim C4, at its failing input. The door was closed at the last boot and is open now,
  WiFi is up at once and the broker refuses all eleven connection attempts, which takes
  33 s. The one iteration of the loop reads the pin closed, and the stuck message is
  published all the same: \<^verbatim>\<open>elapsed_time\<close> is counted from \<^verbatim>\<open>start_time\<close>, which
  \<^verbatim>\<open>setup_wifi\<close> set at line 105 before the connection attempts, while the comment at
  line 351 describes it as the time since the loop started running.
\<close>

theorem closed_reading_still_publishes_stuck:
  "\<not> pin_level (scripted [True] True False) 1 \<and>
   pin_reads (final_state
     (setup_main patient_config (scripted [True] True False) (rtc_of 0 0))) = 3 \<and>
   doorState (final_state
     (setup_main patient_config (scripted [True] True False) (rtc_of 0 0))) =
     GPIO_DOOR_CLOSED_STATE \<and>
   trace (final_state
     (setup_main patient_config (scripted [True] True False) (rtc_of 0 0))) =
     [WiFi_disconnect, WiFi_begin] @ replicate 11 (Client_connect False) @
     [Publish ''/sensor/door'' ''1'',
      Publish ''/sensor/door_status'' message_door_open,
      Publish ''/sensor/door_status'' message_door_stuck,
      Client_disconnect, WiFi_disconnect,
      Publish ''/sensor/door_status'' message_door_closed,
      Store_last_doorState 0, Deep_sleep_start]"
proof -
  let ?e = "scripted [True] True False"
  let ?boot = "boot_prologue ?e (rtc_of 0 0)"
  let ?s = "esp_sleep_enable_ext0_wakeup GPIO_DOOR_OPEN_STATE ?boot"
  let ?s1 = "?s\<lparr>start_time := clock ?s, wifi_polls := wifi_polls ?s + 1,
                      connect_calls := connect_calls ?s + 11, client_connected := False,
                      trace := trace ?s @ [WiFi_disconnect, WiFi_begin] @
                        replicate 11 (Client_connect False),
                      clock := clock ?s + 3000 * 11\<rparr>"
  let ?s3 = "publish ''/sensor/door_status'' message_door_open
               (publish ''/sensor/door'' (String_of (doorState ?s1)) ?s1)"
  let ?s4 = "?s3\<lparr>pin_reads := pin_reads ?s3 + 1, doorState := level ?e (pin_reads ?s3),
                clock := clock ?s3 + 50,
                trace := trace ?s3 @ [Publish ''/sensor/door_status'' message_door_stuck]\<rparr>"
  let ?s8 = "?s4\<lparr>total_time_awake := total_time_awake
                  (runtime (nat (int (clock ?s4) - int (currentMillis ?s4)
                     + time_awake_millis ?s4)) ?s4),
                clock := clock ?s4 + 250, client_connected := False,
                trace := trace ?s4 @ [Client_disconnect, WiFi_disconnect]\<rparr>"
  have pin0: "pin_level ?e 0"
    by (simp add: scripted_def)
  have changed: "rtc_last_doorState (rtc_of 0 0) \<noteq> level ?e 0"
    using pin0 by (simp add: rtc_of_def level_def sketch_consts)
  have idle: "\<not> MAX_STUCK_BOOT_COUNT < stuckbootCount ?boot"
    by (simp add: rtc_of_def sketch_consts)
  have door: "doorState ?s \<noteq> GPIO_DOOR_CLOSED_STATE"
    using pin0 by (simp add: prims level_closed_iff)
  have con: "connect_WIFI_MQTT patient_config ?e ?s = Resumes ?s1"
    by (rule connect_broker_down) (simp_all add: scripted_def patient_config_def)
  have loop: "open_loop ?e ?s3 = ?s4"
    using pin0 by (subst open_loop_step) (simp_all add: prims level_def sketch_consts)
  have "setup_main patient_config ?e (rtc_of 0 0) =
      esp32_sleep ?e (publish ''/sensor/door_status'' message_door_closed ?s8)"
    unfolding setup_main_changed[OF changed] changed_branch_idle[OF idle]
      open_branch_unfold[OF door con loop]
    by simp
  then show ?thesis
    by (simp add: esp32_sleep_result prims level_def scripted_def String_of_def decimal.simps
        sketch_consts)
qed

section \<open>The clock of the open-door timeout\<close>

lemma connect_resumed_frame:
  assumes "connect_WIFI_MQTT c e s = Resumes s1"
  shows "network_only s s1 \<and> doorState s1 = doorState s \<and> start_time s1 = clock s"
  using connect_frame[of c e s] assms by (auto simp: esp32_sleep_result)

text \<open>
  Claim C10. \<^verbatim>\<open>setup_wifi\<close> sets \<^verbatim>\<open>start_time\<close> to \<^verbatim>\<open>millis()\<close> on entry and nothing
  changes it afterwards, so when the loop of line 341 starts, \<^verbatim>\<open>start_time\<close> is the time
  at which \<^verbatim>\<open>connect_WIFI_MQTT\<close> was called at line 328, not the time of loop entry. The
  states \<open>s3\<close> and \<open>s4\<close> below are the ones at loop entry and loop exit of that boot. With
  a pin that stays open the loop ends through the timeout, and the time that counts is the
  connecting time plus the time in the loop: their sum exceeds \<^verbatim>\<open>MAX_OPENDOOR_TIME\<close> by
  more than one and at most two iteration periods, unless connecting alone took longer than
  \<^verbatim>\<open>MAX_OPENDOOR_TIME\<close>, in which case the loop runs a single iteration. Hence whenever
  connecting took more than 100 ms, the timeout exit comes after less than
  \<^verbatim>\<open>MAX_OPENDOOR_TIME\<close> in the loop.
\<close>

theorem open_timeout_counts_connect_time:
  assumes "connect_WIFI_MQTT c e s = Resumes s1"
    and "doorState s = GPIO_DOOR_OPEN_STATE"
    and "\<forall>i\<ge>pin_reads s. pin_level e i"
  shows "let s3 = publish ''/sensor/door_status'' message_door_open
                    (publish ''/sensor/door'' (String_of (doorState s1)) s1);
             s4 = open_loop e s3;
             connecting = clock s3 - clock s;
             in_loop = clock s4 - clock s3
         in open_branch c e s =
              Resumes (s4\<lparr>total_time_awake := total_time_awake
                           (runtime (nat (int (clock s4) - int (currentMillis s4)
                              + time_awake_millis s4)) s4),
                         clock := clock s4 + 250, client_connected := False,
                         trace := trace s4 @ [Client_disconnect, WiFi_disconnect]\<rparr>) \<and>
            start_time s3 = clock s \<and> clock s \<le> clock s3 \<and> clock s3 \<le> clock s4 \<and>
            trace s4 = trace s3 @ [Publish ''/sensor/door_status'' message_door_stuck] \<and>
            MAX_OPENDOOR_TIME + 50 < int connecting + int in_loop \<and>
            (int connecting \<le> MAX_OPENDOOR_TIME \<longrightarrow>
               int connecting + int in_loop \<le> MAX_OPENDOOR_TIME + 100) \<and>
            (MAX_OPENDOOR_TIME < int connecting \<longrightarrow> in_loop = 50) \<and>
            (100 < connecting \<longrightarrow> int in_loop < MAX_OPENDOOR_TIME)"
proof -
  let ?s3 = "publish ''/sensor/door_status'' message_door_open
               (publish ''/sensor/door'' (String_of (doorState s1)) s1)"
  from connect_resumed_frame[OF assms(1)]
  have net: "network_only s s1" and door: "doorState s1 = doorState s"
    and start: "start_time s1 = clock s"
    by simp_all
  from net have mono: "clock s \<le> clock s1" and reads: "pin_reads s \<le> pin_reads s1"
    by (simp_all add: network_only_def)
  have s3: "doorState ?s3 = GPIO_DOOR_OPEN_STATE" "start_time ?s3 = clock s"
    "clock ?s3 = clock s1" "pin_reads ?s3 = pin_reads s1"
    using door start assms(2) by (simp_all add: prims)
  have "\<forall>i\<ge>pin_reads ?s3. pin_level e i"
    using assms(3) reads s3(4) by simp
  from open_loop_never_closed[OF s3(1) this] obtain n where
    res: "clock (open_loop e ?s3) = clock ?s3 + 50 * (n + 1)"
      "trace (open_loop e ?s3) =
         trace ?s3 @ [Publish ''/sensor/door_status'' message_door_stuck]"
    and late: "MAX_OPENDOOR_TIME < int (clock ?s3) + 50 * int n - int (start_time ?s3)"
    and before: "\<forall>j<n. int (clock ?s3) + 50 * int j - int (start_time ?s3) \<le> MAX_OPENDOOR_TIME"
    by auto
  have among: "int (clock s1 - clock s) = int (clock s1) - int (clock s)"
    using mono by simp
  have loop: "clock (open_loop e ?s3) - clock ?s3 = 50 * (n + 1)"
    using res(1) by simp
  have a: "MAX_OPENDOOR_TIME + 50 < int (clock s1 - clock s) + int (50 * (n + 1))"
    using late s3 among by simp
  have b: "int (clock s1 - clock s) \<le> MAX_OPENDOOR_TIME \<Longrightarrow>
       int (clock s1 - clock s) + int (50 * (n + 1)) \<le> MAX_OPENDOOR_TIME + 100"
  proof (cases n)
    case 0
    assume "int (clock s1 - clock s) \<le> MAX_OPENDOOR_TIME"
    with 0 show ?thesis by simp
  next
    case (Suc m)
    with before have "int (clock ?s3) + 50 * int m - int (start_time ?s3) \<le> MAX_OPENDOOR_TIME"
      by simp
    with Suc s3 among show ?thesis by simp
  qed
  have c: "MAX_OPENDOOR_TIME < int (clock s1 - clock s) \<Longrightarrow> n = 0"
  proof (rule ccontr)
    assume over: "MAX_OPENDOOR_TIME < int (clock s1 - clock s)" and "n \<noteq> 0"
    then have "0 < n" by simp
    with before have "int (clock ?s3) + 50 * int 0 - int (start_time ?s3) \<le> MAX_OPENDOOR_TIME"
      by blast
    with over s3 among show False by simp
  qed
  have d: "100 < clock s1 - clock s \<Longrightarrow> int (50 * (n + 1)) < MAX_OPENDOOR_TIME"
  proof (cases "int (clock s1 - clock s) \<le> MAX_OPENDOOR_TIME")
    case True
    assume "100 < clock s1 - clock s"
    with b[OF True] show ?thesis by simp
  next
    case False
    with c have "n = 0" by simp
    then show ?thesis by (simp add: sketch_consts)
  qed
  have "doorState s \<noteq> GPIO_DOOR_CLOSED_STATE"
    using assms(2) by (simp add: sketch_consts)
  from open_branch_unfold[OF this assms(1) refl]
  have e: "open_branch c e s =
      Resumes ((open_loop e ?s3)\<lparr>total_time_awake := total_time_awake
                   (runtime (nat (int (clock (open_loop e ?s3))
                      - int (currentMillis (open_loop e ?s3))
                      + time_awake_millis (open_loop e ?s3))) (open_loop e ?s3)),
                 clock := clock (open_loop e ?s3) + 250, client_connected := False,
                 trace := trace (open_loop e ?s3) @ [Client_disconnect, WiFi_disconnect]\<rparr>)" .
  have f: "start_time ?s3 = clock s \<and> clock s \<le> clock ?s3 \<and>
      clock ?s3 \<le> clock (open_loop e ?s3)"
    using s3 mono res(1) by simp
  have g: "MAX_OPENDOOR_TIME + 50 <
        int (clock ?s3 - clock s) + int (clock (open_loop e ?s3) - clock ?s3) \<and>
      (int (clock ?s3 - clock s) \<le> MAX_OPENDOOR_TIME \<longrightarrow>
         int (clock ?s3 - clock s) + int (clock (open_loop e ?s3) - clock ?s3)
           \<le> MAX_OPENDOOR_TIME + 100) \<and>
      (MAX_OPENDOOR_TIME < int (clock ?s3 - clock s) \<longrightarrow>
         clock (open_loop e ?s3) - clock ?s3 = 50) \<and>
      (100 < clock ?s3 - clock s \<longrightarrow>
         int (clock (open_loop e ?s3) - clock ?s3) < MAX_OPENDOOR_TIME)"
  proof -
    have K: "clock ?s3 - clock s = clock s1 - clock s"
      by (simp only: s3(3))
    from c have "MAX_OPENDOOR_TIME < int (clock s1 - clock s) \<longrightarrow> 50 * (n + 1) = 50"
      by simp
    with a b d show ?thesis
      unfolding K loop by blast
  qed
  from e f g res(2) show ?thesis
    unfolding Let_def by blast
qed

theorem open_timeout_counts_connect_time_witness:
  "int (clock (open_loop (steady True True False)
           (publish ''/sensor/door_status'' message_door_open
             (publish ''/sensor/door'' ''1''
               (final_state (connect_WIFI_MQTT short_config (steady True True False)
                  (boot_prologue (steady True True False) (rtc_of 0 0)))))))
        - clock (final_state (connect_WIFI_MQTT short_config (steady True True False)
                  (boot_prologue (steady True True False) (rtc_of 0 0)))))
     < MAX_OPENDOOR_TIME"
proof -
  let ?e = "steady True True False"
  let ?s = "boot_prologue ?e (rtc_of 0 0)"
  let ?s1 = "?s\<lparr>start_time := clock ?s, wifi_polls := wifi_polls ?s + 1,
                      connect_calls := connect_calls ?s + 3, client_connected := False,
                      trace := trace ?s @ [WiFi_disconnect, WiFi_begin] @
                        replicate 3 (Client_connect False),
                      clock := clock ?s + 3000 * 3\<rparr>"
  have con: "connect_WIFI_MQTT short_config ?e ?s = Resumes ?s1"
    by (rule connect_broker_down) (simp_all add: steady_def short_config_def)
  have door: "doorState ?s = GPIO_DOOR_OPEN_STATE"
    by (simp add: level_open_iff steady_def)
  have never: "\<forall>i\<ge>pin_reads ?s. pin_level ?e i"
    by (simp add: steady_def)
  have slow: "100 < clock (publish ''/sensor/door_status'' message_door_open
                    (publish ''/sensor/door'' (String_of (doorState ?s1)) ?s1)) - clock ?s"
    by (simp add: prims)
  have str: "String_of (doorState ?s1) = ''1''"
    by (simp add: String_of_level steady_def)
  from open_timeout_counts_connect_time[OF con door never] slow
  have "int (clock (open_loop ?e (publish ''/sensor/door_status'' message_door_open
                    (publish ''/sensor/door'' (String_of (doorState ?s1)) ?s1)))
         - clock (publish ''/sensor/door_status'' message_door_open
                    (publish ''/sensor/door'' (String_of (doorState ?s1)) ?s1)))
        < MAX_OPENDOOR_TIME"
    unfolding Let_def by blast
  then show ?thesis
    unfolding con str by (simp add: prims)
qed

end
